theory Spec2Isabelle
  imports Main "HOL-Library.AList" "HOL-Library.Multiset"
begin

section \<open>Values sent by the client\<close>

text \<open>
  A request body is the result of the JSON body parser.  A number is kept as the text
  that \<^verbatim>\<open>String\<close> gives for it, so that \<^verbatim>\<open>String(v)\<close> needs no floating point; the
  only number that is falsy in a JSON document is zero.
\<close>

datatype json =
    JNull
  | JBool bool
  | JNum string
  | JStr string
  | JArr "json list"
  | JObj "(string \<times> json) list"

text \<open>JavaScript truthiness, as used by \<^verbatim>\<open>v || ''\<close>, \<^verbatim>\<open>v ? a : b\<close> and \<^verbatim>\<open>if (v)\<close>.\<close>

fun truthy :: "json \<Rightarrow> bool" where
  "truthy JNull = False"
| "truthy (JBool b) = b"
| "truthy (JNum s) = (s \<noteq> ''0'')"
| "truthy (JStr s) = (s \<noteq> [])"
| "truthy (JArr xs) = True"
| "truthy (JObj kvs) = True"

text \<open>What can be thrown inside a handler's \<^verbatim>\<open>try\<close> block.\<close>

datatype exn =
    CastError            \<comment> \<open>the store cannot cast a string to an identifier\<close>
  | TypeError            \<comment> \<open>\<^verbatim>\<open>.trim\<close> on a value that is not a string, or a value with no string form\<close>
  | DuplicateKey         \<comment> \<open>error code 11000 of the store\<close>
  | QueryError           \<comment> \<open>the store rejects a filter, a sort or a projection\<close>

fun joinComma :: "string list \<Rightarrow> string" where
  "joinComma [] = []"
| "joinComma [s] = s"
| "joinComma (s # t # ts) = s @ '','' @ joinComma (t # ts)"

text \<open>The results of conversions made one after the other: the first exception, if any.\<close>

fun collect :: "(exn + 'a) list \<Rightarrow> exn + 'a list" where
  "collect [] = Inr []"
| "collect (Inl e # rs) = Inl e"
| "collect (Inr x # rs) = (case collect rs of Inl e \<Rightarrow> Inl e | Inr xs \<Rightarrow> Inr (x # xs))"

text \<open>
  \<^verbatim>\<open>String(v)\<close>.  An array is joined with commas, a null element printing as the empty
  string.  An object of a JSON document prints as \<^verbatim>\<open>[object Object]\<close> through the inherited
  \<^verbatim>\<open>toString\<close>; when it has a key \<^verbatim>\<open>toString\<close> of its own, whose value cannot be called,
  the conversion finds no primitive value and throws a \<^verbatim>\<open>TypeError\<close>.
\<close>

fun jsString :: "json \<Rightarrow> exn + string" where
  "jsString JNull = Inr ''null''"
| "jsString (JBool b) = Inr (if b then ''true'' else ''false'')"
| "jsString (JNum s) = Inr s"
| "jsString (JStr s) = Inr s"
| "jsString (JArr xs) =
     (case collect (map (\<lambda>x. if x = JNull then Inr [] else jsString x) xs) of
        Inl e \<Rightarrow> Inl e
      | Inr ss \<Rightarrow> Inr (joinComma ss))"
| "jsString (JObj kvs) =
     (if ''toString'' \<in> set (map fst kvs) then Inl TypeError else Inr ''[object Object]'')"

definition isSpace :: "char \<Rightarrow> bool" where
  "isSpace c = (c \<in> set [CHR '' '', CHR 0x09, CHR 0x0A, CHR 0x0B, CHR 0x0C, CHR 0x0D])"

text \<open>\<^verbatim>\<open>s.trim()\<close>\<close>

definition trim :: "string \<Rightarrow> string" where
  "trim s = rev (dropWhile isSpace (rev (dropWhile isSpace s)))"

definition lowerChar :: "char \<Rightarrow> char" where
  "lowerChar c =
     (case map_of (zip ''ABCDEFGHIJKLMNOPQRSTUVWXYZ'' ''abcdefghijklmnopqrstuvwxyz'') c of
        None \<Rightarrow> c
      | Some l \<Rightarrow> l)"

text \<open>\<^verbatim>\<open>s.toLowerCase()\<close> on the ASCII letters.\<close>

definition toLowerCase :: "string \<Rightarrow> string" where
  "toLowerCase s = map lowerChar s"

text \<open>The response helpers \<^verbatim>\<open>ok\<close>, \<^verbatim>\<open>created\<close>, \<^verbatim>\<open>notFound\<close>, \<^verbatim>\<open>badRequest\<close> and
  \<^verbatim>\<open>serverError\<close> (status 200, 201, 404, 400 and 500).  \<open>BadRequest\<close> is the error kind
  InvalidArgument, \<open>ServerError\<close> is Internal.  \<open>NoResponse\<close> is a handler that returns
  without calling any helper.\<close>

datatype 'a response =
    Ok 'a
  | Created 'a
  | NotFound string
  | BadRequest string
  | ServerError
  | NoResponse

text \<open>A query-string parameter that the handler gives to \<^verbatim>\<open>JSON.parse\<close>: not there,
  a text that \<^verbatim>\<open>JSON.parse\<close> rejects, or a text it parses.\<close>

datatype qparam = Absent | Unparseable | Parsed json

datatype parsed = Undefined | Failed | Value json

text \<open>\<^verbatim>\<open>parseJSONParam\<close>: \<open>Failed\<close> is the branch that has answered \<^verbatim>\<open>badRequest\<close> and
  returns \<^verbatim>\<open>null\<close>.  A caller tests the result against \<^verbatim>\<open>null\<close> and returns: that is
  \<open>Failed\<close>, with the answer sent, and also \<open>Value JNull\<close>, the parsed text \<^verbatim>\<open>null\<close>, with
  no answer sent.\<close>

fun parseJSONParam :: "qparam \<Rightarrow> parsed" where
  "parseJSONParam Absent = Undefined"
| "parseJSONParam Unparseable = Failed"
| "parseJSONParam (Parsed j) = Value j"

text \<open>\<^verbatim>\<open>if (p)\<close> on a parsed parameter that is not \<^verbatim>\<open>null\<close>.\<close>

fun given :: "parsed \<Rightarrow> json option" where
  "given (Value j) = (if truthy j then Some j else None)"
| "given p = None"

text \<open>\<^verbatim>\<open>toBool\<close> on a query-string value: \<open>None\<close> is a value that is not a string.\<close>

fun toBool :: "string option \<Rightarrow> bool" where
  "toBool None = False"
| "toBool (Some s) = (toLowerCase s = ''true'')"

section \<open>The documents and the store\<close>

record task =
  name :: string
  description :: string
  deadline :: int
  completed :: bool
  assignedUser :: string
  assignedUserName :: string
  dateCreated :: int

text \<open>Modelled from the spec: the user schema (\<^verbatim>\<open>models/user.js\<close>), a name, an email and
  the identifiers of the pending tasks, kept as an array of strings.\<close>

record user =
  name :: string
  email :: string
  pendingTasks :: "string list"

text \<open>A collection is the list of its documents under their \<^verbatim>\<open>_id\<close>, in insertion order.\<close>

type_synonym 'd coll = "(string \<times> 'd) list"

record store =
  tasks :: "task coll"
  users :: "user coll"

text \<open>
  The store casts the string it is given to an identifier and throws when it cannot; the
  \<^verbatim>\<open>catch\<close> block of \<^verbatim>\<open>GET /tasks/:id\<close> answers that exception with \<^verbatim>\<open>Invalid task id\<close>.
  Which strings are identifiers is the store's matter: \<open>isId\<close> is a parameter of every
  operation below.  \<open>objectIdHex\<close>, 24 hexadecimal digits, is the instance used in the
  examples.  A well-formed string denotes the document stored under that same string, and
  the documents of the store satisfy their schema, so that saving one again raises no
  validation error.  The store is taken to be reachable: a call fails only by one of the
  exceptions of \<open>exn\<close>.
\<close>

definition objectIdHex :: "string \<Rightarrow> bool" where
  "objectIdHex s = (length s = 24 \<and> list_all (\<lambda>c. c \<in> set ''0123456789abcdefABCDEF'') s)"

definition findById :: "(string \<Rightarrow> bool) \<Rightarrow> 'd coll \<Rightarrow> string \<Rightarrow> exn + 'd option" where
  "findById isId c i = (if isId i then Inr (map_of c i) else Inl CastError)"

text \<open>\<^verbatim>\<open>findByIdAndUpdate\<close>: nothing happens when no document has the identifier.\<close>

definition findByIdAndUpdate ::
  "(string \<Rightarrow> bool) \<Rightarrow> 'd coll \<Rightarrow> string \<Rightarrow> ('d \<Rightarrow> 'd) \<Rightarrow> exn + 'd coll" where
  "findByIdAndUpdate isId c i f = (if isId i then Inr (AList.map_entry i f c) else Inl CastError)"

text \<open>The store's reading of a parsed filter, sort and projection; \<open>None\<close> is a value it
  rejects, by throwing.  A sort is a key, smaller keys first, ties in collection order.\<close>

record ('d, 'p) engine =
  filterOf :: "json \<Rightarrow> ('d \<Rightarrow> bool) option"
  sortOf :: "json \<Rightarrow> ('d \<Rightarrow> nat) option"
  selectOf :: "json \<Rightarrow> ('d \<Rightarrow> 'p) option"

text \<open>A document as it is returned: whole, or projected.\<close>

datatype ('d, 'p) view = Whole 'd | Part 'p

text \<open>An engine that accepts objects only, matches every document, keeps the collection
  order and projects a document to its identifier.\<close>

fun anyObject :: "'a \<Rightarrow> json \<Rightarrow> 'a option" where
  "anyObject a (JObj kvs) = Some a"
| "anyObject a j = None"

definition everyDoc :: "'d \<Rightarrow> bool" where
  "everyDoc d = True"

definition plainEngine :: "(string \<times> 'd, string) engine" where
  "plainEngine =
     \<lparr>filterOf = anyObject everyDoc, sortOf = anyObject (\<lambda>d. 0), selectOf = anyObject fst\<rparr>"

definition emptyStore :: store where
  "emptyStore = \<lparr>tasks = [], users = []\<rparr>"

section \<open>Fetching one document\<close>

text \<open>\<^verbatim>\<open>if (select) q = q.select(select); await q.exec()\<close> on a \<^verbatim>\<open>findById\<close> query.\<close>

definition execOne ::
  "(string \<Rightarrow> bool) \<Rightarrow> (string \<times> 'd, 'p) engine \<Rightarrow> parsed \<Rightarrow> 'd coll \<Rightarrow> string
     \<Rightarrow> exn + (string \<times> 'd, 'p) view option" where
  "execOne isId eng sel c i =
     (case given sel of
        None \<Rightarrow>
          (case findById isId c i of
             Inl e \<Rightarrow> Inl e
           | Inr None \<Rightarrow> Inr None
           | Inr (Some d) \<Rightarrow> Inr (Some (Whole (i, d))))
      | Some j \<Rightarrow>
          (case selectOf eng j of
             None \<Rightarrow> Inl QueryError
           | Some pr \<Rightarrow>
               (case findById isId c i of
                  Inl e \<Rightarrow> Inl e
                | Inr None \<Rightarrow> Inr None
                | Inr (Some d) \<Rightarrow> Inr (Some (Part (pr (i, d)))))))"

text \<open>\<^verbatim>\<open>GET /tasks/:id\<close>: anything thrown is answered \<^verbatim>\<open>badRequest('Invalid task id')\<close>.\<close>

definition getTask ::
  "(string \<Rightarrow> bool) \<Rightarrow> (string \<times> task, 'p) engine \<Rightarrow> qparam \<Rightarrow> string \<Rightarrow> store
     \<Rightarrow> (string \<times> task, 'p) view response" where
  "getTask isId eng select i st =
     (let sel = parseJSONParam select in
      if sel = Failed then BadRequest ''Invalid JSON in 'select' parameter''
      else if sel = Value JNull then NoResponse
      else
        (case execOne isId eng sel (tasks st) i of
           Inl e \<Rightarrow> BadRequest ''Invalid task id''
         | Inr None \<Rightarrow> NotFound ''Task''
         | Inr (Some v) \<Rightarrow> Ok v))"

text \<open>\<^verbatim>\<open>GET /users/:id\<close>: the \<^verbatim>\<open>catch\<close> block answers \<^verbatim>\<open>notFound(res, 'User')\<close>; the
  \<^verbatim>\<open>badRequest(res, 'Invalid user id')\<close> beside it is commented out.\<close>

definition getUser ::
  "(string \<Rightarrow> bool) \<Rightarrow> (string \<times> user, 'p) engine \<Rightarrow> qparam \<Rightarrow> string \<Rightarrow> store
     \<Rightarrow> (string \<times> user, 'p) view response" where
  "getUser isId eng select i st =
     (let sel = parseJSONParam select in
      if sel = Failed then BadRequest ''Invalid JSON in 'select' parameter''
      else if sel = Value JNull then NoResponse
      else
        (case execOne isId eng sel (users st) i of
           Inl e \<Rightarrow> NotFound ''User''
         | Inr None \<Rightarrow> NotFound ''User''
         | Inr (Some v) \<Rightarrow> Ok v))"

section \<open>Reading a request body\<close>

text \<open>The body is a JSON object; \<^verbatim>\<open>body.k\<close> is \<open>field body k\<close>, \<open>None\<close> when undefined.\<close>

type_synonym body = "(string \<times> json) list"

definition field :: "body \<Rightarrow> string \<Rightarrow> json option" where
  "field b k = map_of b k"

text \<open>\<^verbatim>\<open>(v || '').trim()\<close>: a truthy value that is not a string has no \<^verbatim>\<open>trim\<close>.\<close>

definition trimmed :: "json option \<Rightarrow> exn + string" where
  "trimmed v =
     (case v of
        None \<Rightarrow> Inr (trim [])
      | Some j \<Rightarrow>
          if \<not> truthy j then Inr (trim [])
          else (case j of JStr s \<Rightarrow> Inr (trim s) | _ \<Rightarrow> Inl TypeError))"

text \<open>\<^verbatim>\<open>v ? String(v) : ""\<close>\<close>

definition strOf :: "json option \<Rightarrow> exn + string" where
  "strOf v = (case v of None \<Rightarrow> Inr [] | Some j \<Rightarrow> if truthy j then jsString j else Inr [])"

text \<open>\<^verbatim>\<open>typeof v === 'boolean' ? v : false\<close>\<close>

fun boolOf :: "json option \<Rightarrow> bool" where
  "boolOf (Some (JBool b)) = b"
| "boolOf v = False"

text \<open>\<^verbatim>\<open>v ? new Date(v) : null\<close>, with \<open>None\<close> for \<^verbatim>\<open>null\<close> and for a date whose
  \<^verbatim>\<open>getTime()\<close> is \<^verbatim>\<open>NaN\<close>; both are refused by the same test.  \<open>dateOf\<close> is
  \<^verbatim>\<open>new Date\<close>, a parameter; it throws on a value with no primitive form.\<close>

definition deadlineOf :: "(json \<Rightarrow> exn + int option) \<Rightarrow> json option \<Rightarrow> exn + int option" where
  "deadlineOf dateOf v =
     (case v of None \<Rightarrow> Inr None | Some j \<Rightarrow> if truthy j then dateOf j else Inr None)"

text \<open>\<^verbatim>\<open>Array.isArray(v) ? v.map(String) : []\<close>\<close>

fun stringsOf :: "json option \<Rightarrow> exn + string list" where
  "stringsOf (Some (JArr xs)) = collect (map jsString xs)"
| "stringsOf v = Inr []"

section \<open>The pending set of a user\<close>

text \<open>\<^verbatim>\<open>$addToSet\<close> and \<^verbatim>\<open>$pull\<close> on an array.\<close>

definition addToSet :: "'a \<Rightarrow> 'a list \<Rightarrow> 'a list" where
  "addToSet x xs = (if x \<in> set xs then xs else xs @ [x])"

definition pull :: "'a \<Rightarrow> 'a list \<Rightarrow> 'a list" where
  "pull x xs = filter (\<lambda>y. y \<noteq> x) xs"

definition addPendingToUser :: "(string \<Rightarrow> bool) \<Rightarrow> string \<Rightarrow> string \<Rightarrow> store \<Rightarrow> exn + store" where
  "addPendingToUser isId userId taskId st =
     (if userId = [] then Inr st
      else (case findByIdAndUpdate isId (users st) userId
                   (\<lambda>u. u\<lparr>pendingTasks := addToSet taskId (pendingTasks u)\<rparr>) of
              Inl e \<Rightarrow> Inl e
            | Inr us \<Rightarrow> Inr (st\<lparr>users := us\<rparr>)))"

definition removePendingFromUser ::
  "(string \<Rightarrow> bool) \<Rightarrow> string \<Rightarrow> string \<Rightarrow> store \<Rightarrow> exn + store" where
  "removePendingFromUser isId userId taskId st =
     (if userId = [] then Inr st
      else (case findByIdAndUpdate isId (users st) userId
                   (\<lambda>u. u\<lparr>pendingTasks := pull taskId (pendingTasks u)\<rparr>) of
              Inl e \<Rightarrow> Inl e
            | Inr us \<Rightarrow> Inr (st\<lparr>users := us\<rparr>)))"

text \<open>Awaited store calls in sequence.  A call that throws has written nothing, the calls
  before it have: the result is the exception, if any, and the store as it is left.\<close>

fun inOrder :: "(store \<Rightarrow> exn + store) list \<Rightarrow> store \<Rightarrow> exn option \<times> store" where
  "inOrder [] st = (None, st)"
| "inOrder (f # fs) st = (case f st of Inl e \<Rightarrow> (Some e, st) | Inr st' \<Rightarrow> inOrder fs st')"

text \<open>\<^verbatim>\<open>if (c) await f\<close>\<close>

definition onlyIf :: "bool \<Rightarrow> (store \<Rightarrow> exn + store) \<Rightarrow> store \<Rightarrow> exn + store" where
  "onlyIf c f st = (if c then f st else Inr st)"

text \<open>\<^verbatim>\<open>await doc.save()\<close> on a new document: an identifier already there is error 11000.\<close>

definition insertDoc :: "'d coll \<Rightarrow> string \<Rightarrow> 'd \<Rightarrow> exn + 'd coll" where
  "insertDoc c i d = (if i \<in> set (map fst c) then Inl DuplicateKey else Inr (c @ [(i, d)]))"

text \<open>The user a task is to be assigned to: \<open>Inr None\<close> when \<^verbatim>\<open>findById\<close> finds nobody,
  otherwise the name to cache; the empty identifier stands for nobody to look up.\<close>

definition assignee :: "(string \<Rightarrow> bool) \<Rightarrow> user coll \<Rightarrow> string \<Rightarrow> exn + string option" where
  "assignee isId us a =
     (if a = [] then Inr (Some ''unassigned'')
      else (case findById isId us a of
              Inl e \<Rightarrow> Inl e
            | Inr None \<Rightarrow> Inr None
            | Inr (Some u) \<Rightarrow> Inr (Some (user.name u))))"

section \<open>The Task Service\<close>

text \<open>\<^verbatim>\<open>POST /tasks\<close>.  \<open>now\<close> is \<^verbatim>\<open>Date.now()\<close> and \<open>newId\<close> the identifier that
  \<^verbatim>\<open>new Task\<close> draws.  The schema trims \<^verbatim>\<open>name\<close> and \<^verbatim>\<open>assignedUserName\<close>.\<close>

definition createTask ::
  "(string \<Rightarrow> bool) \<Rightarrow> (json \<Rightarrow> exn + int option) \<Rightarrow> int \<Rightarrow> string \<Rightarrow> body \<Rightarrow> store
     \<Rightarrow> task option response \<times> store" where
  "createTask isId dateOf now newId b st =
     (case trimmed (field b ''name'') of
        Inl e \<Rightarrow> (ServerError, st)
      | Inr nm \<Rightarrow>
     (case deadlineOf dateOf (field b ''deadline'') of
        Inl e \<Rightarrow> (ServerError, st)
      | Inr None \<Rightarrow> (BadRequest ''Task must have a valid name and deadline'', st)
      | Inr (Some dl) \<Rightarrow>
     if nm = [] then (BadRequest ''Task must have a valid name and deadline'', st)
     else
     (case strOf (field b ''description'') of
        Inl e \<Rightarrow> (ServerError, st)
      | Inr descr \<Rightarrow>
     (case strOf (field b ''assignedUser'') of
        Inl e \<Rightarrow> (ServerError, st)
      | Inr owner \<Rightarrow>
       let done = boolOf (field b ''completed'') in
     (case assignee isId (users st) owner of
        Inl e \<Rightarrow> (ServerError, st)
      | Inr None \<Rightarrow> (BadRequest ''Assigned user does not exist'', st)
      | Inr (Some ownerName) \<Rightarrow>
     (case insertDoc (tasks st) newId
             \<lparr>task.name = trim nm, description = descr, deadline = dl, completed = done,
              assignedUser = owner, assignedUserName = trim ownerName, dateCreated = now\<rparr> of
        Inl e \<Rightarrow> (ServerError, st)
      | Inr ts \<Rightarrow>
     (case inOrder
             [onlyIf (owner \<noteq> [])
                (if \<not> done then addPendingToUser isId owner newId
                 else removePendingFromUser isId owner newId)]
             (st\<lparr>tasks := ts\<rparr>) of
        (Some e, st') \<Rightarrow> (ServerError, st')
      | (None, st') \<Rightarrow> (Created (map_of (tasks st') newId), st'))))))))"

text \<open>\<^verbatim>\<open>PUT /tasks/:id\<close>.  The loaded document is changed in memory only, until
  \<^verbatim>\<open>task.save()\<close> writes the changed fields.\<close>

definition updateTask ::
  "(string \<Rightarrow> bool) \<Rightarrow> (json \<Rightarrow> exn + int option) \<Rightarrow> string \<Rightarrow> body \<Rightarrow> store
     \<Rightarrow> task option response \<times> store" where
  "updateTask isId dateOf i b st =
     (case trimmed (field b ''name'') of
        Inl e \<Rightarrow> (ServerError, st)
      | Inr nm \<Rightarrow>
     (case deadlineOf dateOf (field b ''deadline'') of
        Inl e \<Rightarrow> (ServerError, st)
      | Inr None \<Rightarrow> (BadRequest ''Task must have a valid name and deadline'', st)
      | Inr (Some dl) \<Rightarrow>
     if nm = [] then (BadRequest ''Task must have a valid name and deadline'', st)
     else
     (case findById isId (tasks st) i of
        Inl e \<Rightarrow> (ServerError, st)
      | Inr None \<Rightarrow> (NotFound ''Task'', st)
      | Inr (Some t) \<Rightarrow>
     (case strOf (field b ''description'') of
        Inl e \<Rightarrow> (ServerError, st)
      | Inr descr \<Rightarrow>
     (case strOf (field b ''assignedUser'') of
        Inl e \<Rightarrow> (ServerError, st)
      | Inr newAssignedUser \<Rightarrow>
       let prevAssignedUser = assignedUser t;
           prevCompleted = completed t;
           newCompleted = boolOf (field b ''completed'')
       in
     (case assignee isId (users st) newAssignedUser of
        Inl e \<Rightarrow> (ServerError, st)
      | Inr None \<Rightarrow> (BadRequest ''Assigned user does not exist'', st)
      | Inr (Some ownerName) \<Rightarrow>
     (case inOrder
             [onlyIf (prevAssignedUser \<noteq> [] \<and> prevAssignedUser \<noteq> newAssignedUser)
                (removePendingFromUser isId prevAssignedUser i),
              onlyIf (newAssignedUser \<noteq> [])
                (if \<not> newCompleted then addPendingToUser isId newAssignedUser i
                 else removePendingFromUser isId newAssignedUser i),
              onlyIf (prevAssignedUser \<noteq> [] \<and> prevAssignedUser = newAssignedUser)
                (if \<not> prevCompleted \<and> newCompleted
                 then removePendingFromUser isId newAssignedUser i
                 else if prevCompleted \<and> \<not> newCompleted
                 then addPendingToUser isId newAssignedUser i
                 else Inr)]
             (st\<lparr>tasks := AList.map_entry i
                 (\<lambda>d. d\<lparr>task.name := trim nm, description := descr,
                        deadline := dl, completed := newCompleted,
                        assignedUser := newAssignedUser,
                        assignedUserName := trim ownerName\<rparr>) (tasks st)\<rparr>) of
        (Some e, st') \<Rightarrow> (ServerError, st')
      | (None, st') \<Rightarrow> (Ok (map_of (tasks st') i), st'))))))))"

text \<open>\<^verbatim>\<open>DELETE /tasks/:id\<close>\<close>

definition deleteTask :: "(string \<Rightarrow> bool) \<Rightarrow> string \<Rightarrow> store \<Rightarrow> unit response \<times> store" where
  "deleteTask isId i st =
     (case findById isId (tasks st) i of
        Inl e \<Rightarrow> (ServerError, st)
      | Inr None \<Rightarrow> (NotFound ''Task'', st)
      | Inr (Some t) \<Rightarrow>
          (case inOrder
                  [onlyIf (assignedUser t \<noteq> []) (removePendingFromUser isId (assignedUser t) i)]
                  (st\<lparr>tasks := AList.delete i (tasks st)\<rparr>) of
             (Some e, st') \<Rightarrow> (ServerError, st')
           | (None, st') \<Rightarrow> (Ok (), st')))"

section \<open>The User Service\<close>

text \<open>\<^verbatim>\<open>Model.find({ _id: { $in: ids } })\<close>: every string of \<open>ids\<close> is cast first; the
  documents come in collection order.\<close>

definition findIn :: "(string \<Rightarrow> bool) \<Rightarrow> 'd coll \<Rightarrow> string list \<Rightarrow> exn + (string \<times> 'd) list" where
  "findIn isId c ids =
     (if list_all isId ids then Inr (filter (\<lambda>kd. fst kd \<in> set ids) c) else Inl CastError)"

text \<open>\<^verbatim>\<open>User.findOne({ email })\<close>: the first user with that email.\<close>

definition findOne :: "string \<Rightarrow> user coll \<Rightarrow> (string \<times> user) option" where
  "findOne em c = find (\<lambda>kd. email (snd kd) = em) c"

text \<open>
  \<^verbatim>\<open>await Promise.all(docs.map(async (t) => ...))\<close>.  Every callback runs to its end or to
  its own exception, whatever the others do, and \<^verbatim>\<open>Promise.all\<close> rejects with an exception
  as soon as one is thrown.  The callbacks of one call write different task documents and
  add or pull different identifiers, so the documents they leave do not depend on how they
  interleave, up to the order inside a pending array; here they run one after the other.
\<close>

fun promiseAll ::
  "('t \<Rightarrow> store \<Rightarrow> exn option \<times> store) \<Rightarrow> 't list \<Rightarrow> store \<Rightarrow> exn option \<times> store" where
  "promiseAll f [] st = (None, st)"
| "promiseAll f (t # ts) st =
     (case f t st of
        (e, st1) \<Rightarrow>
          (case promiseAll f ts st1 of
             (e', st2) \<Rightarrow> ((case e of None \<Rightarrow> e' | Some x \<Rightarrow> Some x), st2)))"

text \<open>\<^verbatim>\<open>await t.save()\<close> on a task read from the store, after assignments to \<^verbatim>\<open>assignedUser\<close>
  and \<^verbatim>\<open>assignedUserName\<close>: the two fields are written to the stored document.\<close>

definition saveOwner :: "string \<Rightarrow> string \<Rightarrow> string \<Rightarrow> store \<Rightarrow> exn + store" where
  "saveOwner k owner ownerName st =
     Inr (st\<lparr>tasks := AList.map_entry k
            (\<lambda>d. d\<lparr>assignedUser := owner, assignedUserName := trim ownerName\<rparr>) (tasks st)\<rparr>)"

text \<open>The callback of \<^verbatim>\<open>POST /users\<close> and of the added tasks of \<^verbatim>\<open>PUT /users/:id\<close>; \<open>t\<close> is
  the task as \<^verbatim>\<open>find\<close> has read it.\<close>

definition claimTask ::
  "(string \<Rightarrow> bool) \<Rightarrow> string \<Rightarrow> string \<Rightarrow> string \<times> task \<Rightarrow> store \<Rightarrow> exn option \<times> store" where
  "claimTask isId uid uname kt st =
     (case kt of (k, t) \<Rightarrow>
        inOrder
          [onlyIf (assignedUser t \<noteq> [] \<and> assignedUser t \<noteq> uid)
             (removePendingFromUser isId (assignedUser t) k),
           saveOwner k uid uname,
           (if \<not> completed t then addPendingToUser isId uid k
            else removePendingFromUser isId uid k)]
          st)"

text \<open>The callback of the removed tasks of \<^verbatim>\<open>PUT /users/:id\<close>.\<close>

definition unassignTask ::
  "(string \<Rightarrow> bool) \<Rightarrow> string \<Rightarrow> string \<times> task \<Rightarrow> store \<Rightarrow> exn option \<times> store" where
  "unassignTask isId uid kt st =
     (case kt of (k, t) \<Rightarrow>
        inOrder [saveOwner k [] ''unassigned'', removePendingFromUser isId uid k] st)"

text \<open>The callback of \<^verbatim>\<open>DELETE /users/:id\<close>.\<close>

definition orphanTask :: "string \<times> task \<Rightarrow> store \<Rightarrow> exn option \<times> store" where
  "orphanTask kt st = (case kt of (k, t) \<Rightarrow> inOrder [saveOwner k [] ''unassigned''] st)"

text \<open>The \<^verbatim>\<open>catch\<close> block of \<^verbatim>\<open>POST /users\<close> and \<^verbatim>\<open>PUT /users/:id\<close>.\<close>

definition userCatch :: "exn \<Rightarrow> 'a response" where
  "userCatch e =
     (if e = DuplicateKey then BadRequest ''A user with this email already exists''
      else ServerError)"

text \<open>\<^verbatim>\<open>if (ids.length > 0) { docs = await find(ids); await Promise.all(docs.map(f)) }\<close>\<close>

definition forFound ::
  "(string \<Rightarrow> bool) \<Rightarrow> string list \<Rightarrow> (string \<times> task \<Rightarrow> store \<Rightarrow> exn option \<times> store) \<Rightarrow> store
     \<Rightarrow> exn option \<times> store" where
  "forFound isId ids f st =
     (if ids = [] then (None, st)
      else (case findIn isId (tasks st) ids of
              Inl e \<Rightarrow> (Some e, st)
            | Inr found \<Rightarrow> promiseAll f found st))"

text \<open>\<^verbatim>\<open>POST /users\<close>; \<open>newId\<close> is the identifier that \<^verbatim>\<open>new User\<close> draws.\<close>

definition createUser ::
  "(string \<Rightarrow> bool) \<Rightarrow> string \<Rightarrow> body \<Rightarrow> store \<Rightarrow> user option response \<times> store" where
  "createUser isId newId b st =
     (case trimmed (field b ''name'') of
        Inl e \<Rightarrow> (userCatch e, st)
      | Inr nm \<Rightarrow>
     (case trimmed (field b ''email'') of
        Inl e \<Rightarrow> (userCatch e, st)
      | Inr em \<Rightarrow>
     if nm = [] \<or> toLowerCase em = [] then (BadRequest ''User must have name and email'', st)
     else
     (case findOne (toLowerCase em) (users st) of
        Some existing \<Rightarrow> (BadRequest ''A user with this email already exists'', st)
      | None \<Rightarrow>
     (case stringsOf (field b ''pendingTasks'') of
        Inl e \<Rightarrow> (userCatch e, st)
      | Inr pending \<Rightarrow>
     (case insertDoc (users st) newId
             \<lparr>user.name = nm, email = toLowerCase em, pendingTasks = []\<rparr> of
        Inl e \<Rightarrow> (userCatch e, st)
      | Inr us \<Rightarrow>
     (case forFound isId pending (claimTask isId newId nm) (st\<lparr>users := us\<rparr>) of
        (Some e, st') \<Rightarrow> (userCatch e, st')
      | (None, st') \<Rightarrow> (Created (map_of (users st') newId), st')))))))"

text \<open>\<^verbatim>\<open>PUT /users/:id\<close>.  The last \<^verbatim>\<open>user.save()\<close> writes the three fields assigned just
  before it, whatever the callbacks have done to the stored pending set.\<close>

definition updateUser ::
  "(string \<Rightarrow> bool) \<Rightarrow> string \<Rightarrow> body \<Rightarrow> store \<Rightarrow> user option response \<times> store" where
  "updateUser isId i b st =
     (case trimmed (field b ''name'') of
        Inl e \<Rightarrow> (userCatch e, st)
      | Inr nm \<Rightarrow>
     (case trimmed (field b ''email'') of
        Inl e \<Rightarrow> (userCatch e, st)
      | Inr em \<Rightarrow>
     if nm = [] \<or> toLowerCase em = [] then (BadRequest ''User must have name and email'', st)
     else
     (case findById isId (users st) i of
        Inl e \<Rightarrow> (userCatch e, st)
      | Inr None \<Rightarrow> (NotFound ''User'', st)
      | Inr (Some u) \<Rightarrow>
     if (case findOne (toLowerCase em) (users st) of
           None \<Rightarrow> False
         | Some dupe \<Rightarrow> fst dupe \<noteq> i)
     then (BadRequest ''A user with this email already exists'', st)
     else
     (case stringsOf (field b ''pendingTasks'') of
        Inl e \<Rightarrow> (userCatch e, st)
      | Inr newPending \<Rightarrow>
       let prevPending = pendingTasks u;
           toRemove = filter (\<lambda>x. x \<notin> set newPending) prevPending;
           toAdd = filter (\<lambda>x. x \<notin> set prevPending) newPending
       in
     (case forFound isId toRemove (unassignTask isId i) st of
        (Some e, st1) \<Rightarrow> (userCatch e, st1)
      | (None, st1) \<Rightarrow>
     (case forFound isId toAdd (claimTask isId i nm) st1 of
        (Some e, st2) \<Rightarrow> (userCatch e, st2)
      | (None, st2) \<Rightarrow>
       let st3 = st2\<lparr>users := AList.map_entry i
                   (\<lambda>x. x\<lparr>user.name := nm, email := toLowerCase em,
                          pendingTasks := newPending\<rparr>) (users st2)\<rparr>
       in (Ok (map_of (users st3) i), st3)))))))"

text \<open>\<^verbatim>\<open>DELETE /users/:id\<close>\<close>

definition deleteUser :: "(string \<Rightarrow> bool) \<Rightarrow> string \<Rightarrow> store \<Rightarrow> unit response \<times> store" where
  "deleteUser isId i st =
     (case findById isId (users st) i of
        Inl e \<Rightarrow> (ServerError, st)
      | Inr None \<Rightarrow> (NotFound ''User'', st)
      | Inr (Some u) \<Rightarrow>
          (case forFound isId (pendingTasks u) orphanTask st of
             (Some e, st') \<Rightarrow> (ServerError, st')
           | (None, st') \<Rightarrow> (Ok (), st'\<lparr>users := AList.delete i (users st')\<rparr>)))"

section \<open>Listing\<close>

text \<open>\<^verbatim>\<open>req.query.skip ? parseInt(req.query.skip, 10) : undefined\<close>: no value (absent or
  the empty string), a text that \<^verbatim>\<open>parseInt\<close> reads as \<^verbatim>\<open>NaN\<close>, or an integer.\<close>

datatype numParam = NoNumber | NaN | Num int

record listQuery =
  qwhere :: qparam
  qsort :: qparam
  qselect :: qparam
  qskip :: numParam
  qlimit :: numParam
  qcount :: "string option"

datatype ('d, 'p) listing = Count nat | Docs "('d, 'p) view list"

text \<open>The calls a list handler makes on a model.\<close>

datatype storeCall = CountDocuments | Find

text \<open>\<^verbatim>\<open>where || {}\<close>\<close>

definition orEmpty :: "parsed \<Rightarrow> json" where
  "orEmpty w = (case given w of None \<Rightarrow> JObj [] | Some j \<Rightarrow> j)"

definition countDocuments :: "('d, 'p) engine \<Rightarrow> parsed \<Rightarrow> 'd list \<Rightarrow> exn + nat" where
  "countDocuments eng w docs =
     (case filterOf eng (orEmpty w) of
        None \<Rightarrow> Inl QueryError
      | Some matches \<Rightarrow> Inr (length (filter matches docs)))"

text \<open>\<^verbatim>\<open>if (typeof skip === 'number' && !isNaN(skip)) q = q.skip(skip)\<close>; the store refuses
  a negative skip.\<close>

fun skipped :: "numParam \<Rightarrow> 'a list \<Rightarrow> exn + 'a list" where
  "skipped (Num n) xs = (if n < 0 then Inl QueryError else Inr (drop (nat n) xs))"
| "skipped p xs = Inr xs"

text \<open>\<^verbatim>\<open>if (typeof limit === 'number' && !isNaN(limit)) q = q.limit(limit)\<close>; for the store
  a limit of zero is no limit and a negative limit counts as its absolute value.\<close>

fun limited :: "numParam \<Rightarrow> 'a list \<Rightarrow> 'a list" where
  "limited (Num n) xs = (if n = 0 then xs else take (nat \<bar>n\<bar>) xs)"
| "limited p xs = xs"

text \<open>\<^verbatim>\<open>if (sort) q = q.sort(sort)\<close>\<close>

definition sortedBy :: "('d, 'p) engine \<Rightarrow> parsed \<Rightarrow> 'd list \<Rightarrow> exn + 'd list" where
  "sortedBy eng srt docs =
     (case given srt of
        None \<Rightarrow> Inr docs
      | Some j \<Rightarrow>
          (case sortOf eng j of
             None \<Rightarrow> Inl QueryError
           | Some key \<Rightarrow> Inr (sort_key key docs)))"

text \<open>\<^verbatim>\<open>if (select) q = q.select(select)\<close>: how each document of the result is returned.\<close>

definition shownAs :: "('d, 'p) engine \<Rightarrow> parsed \<Rightarrow> exn + ('d \<Rightarrow> ('d, 'p) view)" where
  "shownAs eng sel =
     (case given sel of
        None \<Rightarrow> Inr Whole
      | Some j \<Rightarrow>
          (case selectOf eng j of
             None \<Rightarrow> Inl QueryError
           | Some pr \<Rightarrow> Inr (\<lambda>d. Part (pr d))))"

text \<open>\<^verbatim>\<open>find(where || {})\<close>, then \<^verbatim>\<open>sort\<close>, \<^verbatim>\<open>select\<close>, \<^verbatim>\<open>skip\<close>, \<^verbatim>\<open>limit\<close> as given, then
  \<^verbatim>\<open>exec()\<close>.\<close>

definition runFind ::
  "('d, 'p) engine \<Rightarrow> parsed \<Rightarrow> parsed \<Rightarrow> parsed \<Rightarrow> numParam \<Rightarrow> numParam \<Rightarrow> 'd list
     \<Rightarrow> exn + ('d, 'p) view list" where
  "runFind eng w srt sel skip limit docs =
     (case filterOf eng (orEmpty w) of
        None \<Rightarrow> Inl QueryError
      | Some matches \<Rightarrow>
     (case sortedBy eng srt (filter matches docs) of
        Inl e \<Rightarrow> Inl e
      | Inr ordered \<Rightarrow>
     (case shownAs eng sel of
        Inl e \<Rightarrow> Inl e
      | Inr shown \<Rightarrow>
     (case skipped skip ordered of
        Inl e \<Rightarrow> Inl e
      | Inr rest \<Rightarrow> Inr (map shown (limited limit rest))))))"

text \<open>\<^verbatim>\<open>GET /tasks\<close>, with the calls made on the model.\<close>

definition listTasks ::
  "(string \<times> task, 'p) engine \<Rightarrow> listQuery \<Rightarrow> store
     \<Rightarrow> storeCall list \<times> (string \<times> task, 'p) listing response" where
  "listTasks eng q st =
     (let w = parseJSONParam (qwhere q) in
      if w = Failed then ([], BadRequest ''Invalid JSON in 'where' parameter'')
      else if w = Value JNull then ([], NoResponse)
      else
      let srt = parseJSONParam (qsort q) in
      if srt = Failed then ([], BadRequest ''Invalid JSON in 'sort' parameter'')
      else if srt = Value JNull then ([], NoResponse)
      else
      let sel = parseJSONParam (qselect q) in
      if sel = Failed then ([], BadRequest ''Invalid JSON in 'select' parameter'')
      else if sel = Value JNull then ([], NoResponse)
      else
       let cnt = toBool (qcount q);
           limit = (if \<not> cnt \<and> (qlimit q = NoNumber \<or> qlimit q = NaN) then Num 100
                    else qlimit q)
       in
       if cnt then
         ([CountDocuments],
          (case countDocuments eng w (tasks st) of
             Inl e \<Rightarrow> ServerError
           | Inr c \<Rightarrow> Ok (Count c)))
       else
         ([Find],
          (case runFind eng w srt sel (qskip q) limit (tasks st) of
             Inl e \<Rightarrow> ServerError
           | Inr ds \<Rightarrow> Ok (Docs ds))))"

text \<open>\<^verbatim>\<open>GET /users\<close>: the same handler without the default limit.\<close>

definition listUsers ::
  "(string \<times> user, 'p) engine \<Rightarrow> listQuery \<Rightarrow> store
     \<Rightarrow> storeCall list \<times> (string \<times> user, 'p) listing response" where
  "listUsers eng q st =
     (let w = parseJSONParam (qwhere q) in
      if w = Failed then ([], BadRequest ''Invalid JSON in 'where' parameter'')
      else if w = Value JNull then ([], NoResponse)
      else
      let srt = parseJSONParam (qsort q) in
      if srt = Failed then ([], BadRequest ''Invalid JSON in 'sort' parameter'')
      else if srt = Value JNull then ([], NoResponse)
      else
      let sel = parseJSONParam (qselect q) in
      if sel = Failed then ([], BadRequest ''Invalid JSON in 'select' parameter'')
      else if sel = Value JNull then ([], NoResponse)
      else
       if toBool (qcount q) then
         ([CountDocuments],
          (case countDocuments eng w (users st) of
             Inl e \<Rightarrow> ServerError
           | Inr c \<Rightarrow> Ok (Count c)))
       else
         ([Find],
          (case runFind eng w srt sel (qskip q) (qlimit q) (users st) of
             Inl e \<Rightarrow> ServerError
           | Inr ds \<Rightarrow> Ok (Docs ds))))"

section \<open>Reading the state\<close>

text \<open>The pending set stored for a user identifier, empty when no user has it.\<close>

definition pendingOf :: "store \<Rightarrow> string \<Rightarrow> string list" where
  "pendingOf st u = (case map_of (users st) u of None \<Rightarrow> [] | Some x \<Rightarrow> pendingTasks x)"

text \<open>The error kind InvalidArgument of the spec is the answer \<^verbatim>\<open>badRequest\<close>.\<close>

fun invalidArgument :: "'a response \<Rightarrow> bool" where
  "invalidArgument (BadRequest m) = True"
| "invalidArgument r = False"

fun succeeded :: "'a response \<Rightarrow> bool" where
  "succeeded (Ok x) = True"
| "succeeded (Created x) = True"
| "succeeded r = False"

text \<open>The number of documents a \<^verbatim>\<open>skip\<close> parameter passes over.\<close>

fun skipCount :: "numParam \<Rightarrow> nat" where
  "skipCount (Num n) = nat n"
| "skipCount p = 0"

text \<open>Invariant I2 of the spec: a task that is unassigned or completed is in no user's
  pending set.\<close>

definition I2 :: "store \<Rightarrow> bool" where
  "I2 st =
     list_all
       (\<lambda>kt. if assignedUser (snd kt) = [] \<or> completed (snd kt)
             then list_all (\<lambda>ku. fst kt \<notin> set (pendingTasks (snd ku))) (users st)
             else True)
       (tasks st)"

section \<open>Example data\<close>

definition idA :: string where "idA = ''aaaaaaaaaaaaaaaaaaaaaaaa''"
definition idB :: string where "idB = ''bbbbbbbbbbbbbbbbbbbbbbbb''"
definition idT :: string where "idT = ''111111111111111111111111''"
definition idN :: string where "idN = ''222222222222222222222222''"

text \<open>A \<^verbatim>\<open>new Date\<close> that reads one date, as milliseconds, and refuses the rest.\<close>

fun exampleDate :: "json \<Rightarrow> exn + int option" where
  "exampleDate (JStr s) = Inr (if s = ''2030-01-01'' then Some 1893456000000 else None)"
| "exampleDate j = Inr None"

definition ann :: user where
  "ann = \<lparr>user.name = ''Ann'', email = ''ann@x.org'', pendingTasks = []\<rparr>"

definition bob :: user where
  "bob = \<lparr>user.name = ''Bob'', email = ''bob@x.org'', pendingTasks = []\<rparr>"

definition ship :: task where
  "ship = \<lparr>task.name = ''Ship release'', description = [], deadline = 1893456000000,
           completed = False, assignedUser = [], assignedUserName = ''unassigned'',
           dateCreated = 0\<rparr>"

definition taskBody :: "string \<Rightarrow> body" where
  "taskBody a = [(''name'', JStr ''Ship release''), (''deadline'', JStr ''2030-01-01''),
                 (''assignedUser'', JStr a)]"

definition oddBody :: "string \<Rightarrow> body" where
  "oddBody a = [(''name'', JStr ''Ship release''), (''deadline'', JStr ''2030-01-01''),
                (''description'', JObj [(''toString'', JNum ''1'')]),
                (''assignedUser'', JStr a)]"

definition userBody :: "string \<Rightarrow> string \<Rightarrow> string list \<Rightarrow> body" where
  "userBody nm em pend =
     [(''name'', JStr nm), (''email'', JStr em), (''pendingTasks'', JArr (map JStr pend))]"

definition shipUnowned :: store where
  "shipUnowned = \<lparr>tasks = [(idT, ship)], users = [(idA, ann)]\<rparr>"

definition shipOfAnn :: task where
  "shipOfAnn = ship\<lparr>assignedUser := idA, assignedUserName := ''Ann''\<rparr>"

definition shipOfBob :: task where
  "shipOfBob = ship\<lparr>assignedUser := idB, assignedUserName := ''Bob''\<rparr>"

definition annHasShip :: store where
  "annHasShip = \<lparr>tasks = [(idT, shipOfAnn)],
                 users = [(idA, ann\<lparr>pendingTasks := [idT]\<rparr>), (idB, bob)]\<rparr>"

definition bobHasShip :: store where
  "bobHasShip = \<lparr>tasks = [(idT, shipOfBob)],
                 users = [(idA, ann), (idB, bob\<lparr>pendingTasks := [idT]\<rparr>)]\<rparr>"

definition annAlone :: store where
  "annAlone = \<lparr>tasks = [], users = [(idA, ann)]\<rparr>"

definition plainQuery :: listQuery where
  "plainQuery = \<lparr>qwhere = Absent, qsort = Absent, qselect = Absent, qskip = NoNumber,
                 qlimit = NoNumber, qcount = None\<rparr>"

definition crowd :: "nat \<Rightarrow> 'd \<Rightarrow> 'd coll" where
  "crowd n d = map (\<lambda>k. (replicate (Suc k) (CHR ''7''), d)) [0..<n]"

definition crowded :: store where
  "crowded = \<lparr>tasks = crowd 101 ship, users = crowd 101 ann\<rparr>"

definition skipOne :: listQuery where
  "skipOne = \<lparr>qwhere = Absent, qsort = Absent, qselect = Absent, qskip = Num 1,
               qlimit = NoNumber, qcount = None\<rparr>"

definition nullThenBroken :: listQuery where
  "nullThenBroken = \<lparr>qwhere = Parsed JNull, qsort = Unparseable, qselect = Absent,
                     qskip = NoNumber, qlimit = NoNumber, qcount = None\<rparr>"

definition shipDone :: task where
  "shipDone = ship\<lparr>completed := True\<rparr>"

definition doneUnowned :: store where
  "doneUnowned = \<lparr>tasks = [(idT, shipDone)], users = [(idA, ann)]\<rparr>"

definition doneOfAnn :: store where
  "doneOfAnn = \<lparr>tasks = [(idT, shipDone\<lparr>assignedUser := idA, assignedUserName := ''Ann''\<rparr>)],
                users = [(idA, ann\<lparr>pendingTasks := [idT]\<rparr>)]\<rparr>"

definition nameEmail :: "string \<Rightarrow> string \<Rightarrow> body" where
  "nameEmail nm em = [(''name'', JStr nm), (''email'', JStr em)]"

definition shipFreed :: store where
  "shipFreed = \<lparr>tasks = [(idT, ship)], users = [(idA, ann), (idB, bob)]\<rparr>"

definition cy :: user where
  "cy = \<lparr>user.name = ''Cy'', email = ''cy@x.org'', pendingTasks = []\<rparr>"

definition cyHasShip :: store where
  "cyHasShip = \<lparr>tasks = [(idT, ship\<lparr>assignedUser := idN, assignedUserName := ''Cy''\<rparr>)],
                users = [(idA, ann), (idB, bob), (idN, cy\<lparr>pendingTasks := [idT]\<rparr>)]\<rparr>"

section \<open>Fetching by a malformed identifier\<close>

lemma execOne_malformed:
  "\<not> isId i \<Longrightarrow> \<exists>e. execOne isId eng sel c i = Inl e"
  by (simp add: execOne_def findById_def split: option.split)

text \<open>
  C2 (as the code has it).  A get-user request with a malformed identifier, whose
  \<^verbatim>\<open>select\<close> parameter is absent or parses to a value other than \<^verbatim>\<open>null\<close>, is answered
  NotFound, as for an absent user; the same request to the Task Service is answered
  InvalidArgument.
\<close>

theorem getUser_malformed_NotFound:
  assumes "\<not> isId i" and "select = Absent \<or> (\<exists>j. select = Parsed j \<and> j \<noteq> JNull)"
  shows "getUser isId eng select i st = NotFound ''User''
       \<and> getTask isId eng' select i st = BadRequest ''Invalid task id''"
proof -
  obtain e where e: "execOne isId eng (parseJSONParam select) (users st) i = Inl e"
    using assms(1) execOne_malformed [of isId i eng "parseJSONParam select" "users st"]
    by blast
  obtain e' where e': "execOne isId eng' (parseJSONParam select) (tasks st) i = Inl e'"
    using assms(1) execOne_malformed [of isId i eng' "parseJSONParam select" "tasks st"]
    by blast
  from assms(2) show ?thesis
  proof
    assume "select = Absent"
    with e e' show ?thesis by (simp add: getUser_def getTask_def)
  next
    assume "\<exists>j. select = Parsed j \<and> j \<noteq> JNull"
    then obtain j where "select = Parsed j" "j \<noteq> JNull" by blast
    with e e' show ?thesis by (cases j) (simp_all add: getUser_def getTask_def)
  qed
qed

text \<open>C2, at the identifier \<^verbatim>\<open>xyz\<close>, which is not 24 hexadecimal digits.\<close>

theorem getUser_malformed_NotFound_witness:
  "\<not> objectIdHex ''xyz''
   \<and> getUser objectIdHex plainEngine Absent ''xyz'' emptyStore = NotFound ''User''
   \<and> getTask objectIdHex plainEngine Absent ''xyz'' emptyStore = BadRequest ''Invalid task id''"
  using getUser_malformed_NotFound
    [of objectIdHex "''xyz''" Absent plainEngine emptyStore plainEngine]
  by (simp add: objectIdHex_def)

text \<open>
  C2 (as the spec has it) fails: for the malformed identifier \<^verbatim>\<open>xyz\<close> the User Service
  answers NotFound, not InvalidArgument.
\<close>

theorem getUser_malformed_counterexample:
  "\<not> objectIdHex ''xyz''
   \<and> getUser objectIdHex plainEngine Absent ''xyz'' emptyStore = NotFound ''User''
   \<and> \<not> invalidArgument (getUser objectIdHex plainEngine Absent ''xyz'' emptyStore)"
  by (simp add: objectIdHex_def getUser_def execOne_def findById_def)

section \<open>Store calls, one at a time\<close>

lemma inOrder_Cons_None:
  "inOrder (f # fs) st = (None, st') \<longleftrightarrow> (\<exists>s. f st = Inr s \<and> inOrder fs s = (None, st'))"
  by (auto split: sum.splits)

lemma addPending_effect:
  assumes "addPendingToUser isId u t st = Inr st'"
  shows "tasks st' = tasks st"
    and "(map_of (users st') v = None) = (map_of (users st) v = None)"
    and "pendingOf st' v =
           (if v = u \<and> u \<noteq> [] \<and> map_of (users st) u \<noteq> None
            then addToSet t (pendingOf st u) else pendingOf st v)"
  using assms
  by (auto simp: addPendingToUser_def findByIdAndUpdate_def pendingOf_def map_of_map_entry
      split: if_splits option.splits)

lemma removePending_effect:
  assumes "removePendingFromUser isId u t st = Inr st'"
  shows "tasks st' = tasks st"
    and "(map_of (users st') v = None) = (map_of (users st) v = None)"
    and "pendingOf st' v = (if v = u \<and> u \<noteq> [] then pull t (pendingOf st u) else pendingOf st v)"
  using assms
  by (auto simp: removePendingFromUser_def findByIdAndUpdate_def pendingOf_def map_of_map_entry pull_def
      split: if_splits option.splits)

lemma in_addToSet [simp]: "x \<in> set (addToSet t xs) \<longleftrightarrow> x = t \<or> x \<in> set xs"
  by (auto simp: addToSet_def)

lemma in_pull [simp]: "x \<in> set (pull t xs) \<longleftrightarrow> x \<noteq> t \<and> x \<in> set xs"
  by (auto simp: pull_def)

lemma count_addToSet:
  "count_list (addToSet t xs) t = max 1 (count_list xs t)"
proof (cases "t \<in> set xs")
  case True
  then have "count_list xs t \<noteq> 0" by (simp add: count_list_0_iff)
  with True show ?thesis by (simp add: addToSet_def max_def)
next
  case False
  then have "count_list xs t = 0" by (simp add: count_list_0_iff)
  with False show ?thesis by (simp add: addToSet_def)
qed

lemma assignee_Some:
  "assignee isId us a = Inr (Some n) \<Longrightarrow> a \<noteq> [] \<Longrightarrow> isId a \<and> map_of us a \<noteq> None"
  by (auto simp: assignee_def findById_def split: if_splits option.splits)

lemma inOrder_preserves:
  assumes "\<And>f s s'. f \<in> set fs \<Longrightarrow> f s = Inr s' \<Longrightarrow> P s \<Longrightarrow> P s'"
    and "P st" and "inOrder fs st = (e, st')"
  shows "P st'"
  using assms
proof (induction fs arbitrary: st)
  case Nil
  then show ?case by simp
next
  case (Cons f fs)
  show ?case
  proof (cases "f st")
    case (Inl x)
    with Cons.prems show ?thesis by simp
  next
    case (Inr s)
    have s: "P s" by (rule Cons.prems(1) [of f st s]) (simp_all add: Inr Cons.prems(2))
    from Inr Cons.prems have run: "inOrder fs s = (e, st')" by simp
    show ?thesis
    proof (rule Cons.IH)
      fix g x x'
      assume "g \<in> set fs" "g x = Inr x'" "P x"
      then show "P x'" using Cons.prems(1) [of g x x'] by simp
    next
      show "P s" by (fact s)
    next
      show "inOrder fs s = (e, st')" by (fact run)
    qed
  qed
qed

lemma promiseAll_preserves:
  assumes "\<And>t s e s'. t \<in> set ts \<Longrightarrow> f t s = (e, s') \<Longrightarrow> P s \<Longrightarrow> P s'"
    and "P st" and "promiseAll f ts st = (e, st')"
  shows "P st'"
  using assms
proof (induction ts arbitrary: st e)
  case Nil
  then show ?case by simp
next
  case (Cons t ts)
  obtain e1 s1 where 1: "f t st = (e1, s1)" by (cases "f t st")
  obtain e2 s2 where 2: "promiseAll f ts s1 = (e2, s2)" by (cases "promiseAll f ts s1")
  from 1 2 Cons.prems(3) have "s2 = st'" by simp
  with 2 have run: "promiseAll f ts s1 = (e2, st')" by simp
  have s1: "P s1" by (rule Cons.prems(1) [of t st e1 s1]) (simp_all add: 1 Cons.prems(2))
  show ?case
  proof (rule Cons.IH)
    fix u x d x'
    assume "u \<in> set ts" "f u x = (d, x')" "P x"
    then show "P x'" using Cons.prems(1) [of u x d x'] by simp
  next
    show "P s1" by (fact s1)
  next
    show "promiseAll f ts s1 = (e2, st')" by (fact run)
  qed
qed

lemmas eval_defs =
  createTask_def updateTask_def trimmed_def field_def trim_def isSpace_def deadlineOf_def
  strOf_def findById_def findByIdAndUpdate_def objectIdHex_def assignee_def insertDoc_def
  onlyIf_def addPendingToUser_def removePendingFromUser_def addToSet_def pull_def pendingOf_def
  idA_def idB_def idT_def idN_def ann_def bob_def ship_def taskBody_def annAlone_def Let_def
  userBody_def shipUnowned_def shipOfAnn_def shipOfBob_def annHasShip_def
  bobHasShip_def updateUser_def createUser_def forFound_def findIn_def findOne_def claimTask_def
  unassignTask_def saveOwner_def userCatch_def toLowerCase_def lowerChar_def
  I2_def shipDone_def doneUnowned_def doneOfAnn_def nameEmail_def shipFreed_def cy_def
  cyHasShip_def oddBody_def

section \<open>Updating a task\<close>

lemma reconcile_effect:
  assumes run: "inOrder
             [onlyIf (prev \<noteq> [] \<and> prev \<noteq> new) (removePendingFromUser isId prev i),
              onlyIf (new \<noteq> [])
                (if \<not> nc then addPendingToUser isId new i
                 else removePendingFromUser isId new i),
              onlyIf (prev \<noteq> [] \<and> prev = new)
                (if \<not> pc \<and> nc then removePendingFromUser isId new i
                 else if pc \<and> \<not> nc then addPendingToUser isId new i
                 else Inr)] s0 = (None, s3)"
  shows "tasks s3 = tasks s0"
    and "(map_of (users s3) v = None) = (map_of (users s0) v = None)"
    and "new \<noteq> [] \<Longrightarrow> map_of (users s0) new \<noteq> None \<Longrightarrow> i \<in> set (pendingOf s3 new) \<longleftrightarrow> \<not> nc"
    and "prev \<noteq> [] \<Longrightarrow> prev \<noteq> new \<Longrightarrow> i \<notin> set (pendingOf s3 prev)"
proof -
  from run obtain s1 s2 where
    1: "onlyIf (prev \<noteq> [] \<and> prev \<noteq> new) (removePendingFromUser isId prev i) s0 = Inr s1" and
    2: "onlyIf (new \<noteq> [])
                (if \<not> nc then addPendingToUser isId new i
                 else removePendingFromUser isId new i) s1 = Inr s2" and
    3: "onlyIf (prev \<noteq> [] \<and> prev = new)
                (if \<not> pc \<and> nc then removePendingFromUser isId new i
                 else if pc \<and> \<not> nc then addPendingToUser isId new i
                 else Inr) s2 = Inr s3"
    by (auto simp: inOrder_Cons_None simp del: inOrder.simps(2))
  have t1: "tasks s1 = tasks s0" and d1: "\<And>v. (map_of (users s1) v = None) = (map_of (users s0) v = None)"
    and p1: "\<And>v. pendingOf s1 v = (if prev \<noteq> [] \<and> prev \<noteq> new \<and> v = prev then pull i (pendingOf s0 v) else pendingOf s0 v)"
    using 1 by (auto simp: onlyIf_def removePending_effect split: if_splits)
  have t2: "tasks s2 = tasks s1" and d2: "\<And>v. (map_of (users s2) v = None) = (map_of (users s1) v = None)"
    and p2: "\<And>v. pendingOf s2 v =
        (if new \<noteq> [] \<and> v = new then
           (if nc then pull i (pendingOf s1 v)
            else if map_of (users s1) new \<noteq> None then addToSet i (pendingOf s1 v) else pendingOf s1 v)
         else pendingOf s1 v)"
    using 2 by (auto simp: onlyIf_def removePending_effect addPending_effect split: if_splits)
  have t3: "tasks s3 = tasks s2" and d3: "\<And>v. (map_of (users s3) v = None) = (map_of (users s2) v = None)"
    and p3: "\<And>v. pendingOf s3 v =
        (if prev \<noteq> [] \<and> prev = new \<and> v = new then
           (if \<not> pc \<and> nc then pull i (pendingOf s2 v)
            else if pc \<and> \<not> nc \<and> map_of (users s2) new \<noteq> None then addToSet i (pendingOf s2 v)
            else pendingOf s2 v)
         else pendingOf s2 v)"
    using 3 by (auto simp: onlyIf_def removePending_effect addPending_effect split: if_splits)
  show "tasks s3 = tasks s0" by (simp add: t1 t2 t3)
  show "(map_of (users s3) v = None) = (map_of (users s0) v = None)" by (simp add: d1 d2 d3)
  show "i \<in> set (pendingOf s3 new) \<longleftrightarrow> \<not> nc" if "new \<noteq> []" "map_of (users s0) new \<noteq> None"
    using that by (simp add: p3 p2 d1 d2)
  show "i \<notin> set (pendingOf s3 prev)" if "prev \<noteq> []" "prev \<noteq> new"
    using that by (simp add: p3 p2 p1)
qed

lemma updateTask_Ok_cases:
  assumes "updateTask isId dateOf i b st = (Ok p, st')"
  obtains nm dl t descr owner ownerName where
    "trimmed (field b ''name'') = Inr nm"
    "deadlineOf dateOf (field b ''deadline'') = Inr (Some dl)"
    "isId i" "map_of (tasks st) i = Some t"
    "strOf (field b ''description'') = Inr descr"
    "strOf (field b ''assignedUser'') = Inr owner"
    "assignee isId (users st) owner = Inr (Some ownerName)"
    "inOrder
       [onlyIf (assignedUser t \<noteq> [] \<and> assignedUser t \<noteq> owner)
          (removePendingFromUser isId (assignedUser t) i),
        onlyIf (owner \<noteq> [])
          (if \<not> boolOf (field b ''completed'')
           then addPendingToUser isId owner i
           else removePendingFromUser isId owner i),
        onlyIf (assignedUser t \<noteq> [] \<and> assignedUser t = owner)
          (if \<not> completed t \<and> boolOf (field b ''completed'')
           then removePendingFromUser isId owner i
           else if completed t \<and> \<not> boolOf (field b ''completed'')
           then addPendingToUser isId owner i
           else Inr)]
       (st\<lparr>tasks := AList.map_entry i
           (\<lambda>d. d\<lparr>task.name := trim nm, description := descr,
                  deadline := dl, completed := boolOf (field b ''completed''),
                  assignedUser := owner,
                  assignedUserName := trim ownerName\<rparr>) (tasks st)\<rparr>) = (None, st')"
    "p = map_of (tasks st') i"
  using assms
  by (auto simp: updateTask_def findById_def Let_def simp del: inOrder.simps
      split: sum.splits option.splits if_splits prod.splits)

text \<open>
  C4.  After a successful task update the \<^verbatim>\<open>assignedUser\<close> of the request has a string
  form, the new owner, and the stored task has the new owner and the new completion flag;
  if the new owner is not empty, that user exists and the task's identifier is in the
  user's pending set exactly when the task is not completed; if the previous owner is not
  empty and differs from the new owner, the identifier is not in the previous owner's
  pending set.  Where no user is stored under the empty identifier, the identifier is in
  the new owner's pending set if and only if the new owner is not empty and the task is
  not completed.  Reassigning a pending task from A to B therefore pulls it from A and
  adds it to B in the same update.
\<close>

theorem updateTask_reconciles:
  assumes "updateTask isId dateOf i b st = (Ok p, st')"
    and "map_of (tasks st) i = Some t"
  shows "\<exists>owner. strOf (field b ''assignedUser'') = Inr owner
       \<and> (\<exists>t'. map_of (tasks st') i = Some t'
            \<and> assignedUser t' = owner
            \<and> completed t' = boolOf (field b ''completed''))
       \<and> (owner \<noteq> [] \<longrightarrow>
            map_of (users st') owner \<noteq> None
          \<and> (i \<in> set (pendingOf st' owner) \<longleftrightarrow> \<not> boolOf (field b ''completed'')))
       \<and> (assignedUser t \<noteq> [] \<and> assignedUser t \<noteq> owner \<longrightarrow>
            i \<notin> set (pendingOf st' (assignedUser t)))
       \<and> (map_of (users st) [] = None \<longrightarrow>
            (i \<in> set (pendingOf st' owner)
               \<longleftrightarrow> owner \<noteq> [] \<and> \<not> boolOf (field b ''completed'')))"
proof -
  from assms(1) obtain nm dl t0 descr owner ownerName where
    t0: "map_of (tasks st) i = Some t0" and
    o: "strOf (field b ''assignedUser'') = Inr owner" and
    own: "assignee isId (users st) owner = Inr (Some ownerName)" and
    run: "inOrder
       [onlyIf (assignedUser t0 \<noteq> [] \<and> assignedUser t0 \<noteq> owner)
          (removePendingFromUser isId (assignedUser t0) i),
        onlyIf (owner \<noteq> [])
          (if \<not> boolOf (field b ''completed'')
           then addPendingToUser isId owner i
           else removePendingFromUser isId owner i),
        onlyIf (assignedUser t0 \<noteq> [] \<and> assignedUser t0 = owner)
          (if \<not> completed t0 \<and> boolOf (field b ''completed'')
           then removePendingFromUser isId owner i
           else if completed t0 \<and> \<not> boolOf (field b ''completed'')
           then addPendingToUser isId owner i
           else Inr)]
       (st\<lparr>tasks := AList.map_entry i
           (\<lambda>d. d\<lparr>task.name := trim nm, description := descr,
                  deadline := dl, completed := boolOf (field b ''completed''),
                  assignedUser := owner,
                  assignedUserName := trim ownerName\<rparr>) (tasks st)\<rparr>) = (None, st')"
    by (rule updateTask_Ok_cases)
  from t0 assms(2) have [simp]: "t0 = t" by simp
  note eff = reconcile_effect [OF run]
  have "\<exists>t'. map_of (tasks st') i = Some t'
            \<and> assignedUser t' = owner
            \<and> completed t' = boolOf (field b ''completed'')"
    using t0 by (simp add: eff(1) map_of_map_entry)
  moreover have "map_of (users st') owner \<noteq> None
          \<and> (i \<in> set (pendingOf st' owner) \<longleftrightarrow> \<not> boolOf (field b ''completed''))"
    if ne: "owner \<noteq> []"
  proof -
    from assignee_Some [OF own ne]
    have ex: "map_of (users st) owner \<noteq> None" by simp
    then show ?thesis using eff(2) [of owner] eff(3) [OF ne] by simp
  qed
  moreover have "i \<notin> set (pendingOf st' (assignedUser t))"
    if "assignedUser t \<noteq> []" "assignedUser t \<noteq> owner"
    using eff(4) that by simp
  moreover have "pendingOf st' [] = []" if "map_of (users st) [] = None"
    using eff(2) [of "[]"] that by (simp add: pendingOf_def)
  ultimately have body: "(\<exists>t'. map_of (tasks st') i = Some t'
            \<and> assignedUser t' = owner
            \<and> completed t' = boolOf (field b ''completed''))
       \<and> (owner \<noteq> [] \<longrightarrow>
            map_of (users st') owner \<noteq> None
          \<and> (i \<in> set (pendingOf st' owner) \<longleftrightarrow> \<not> boolOf (field b ''completed'')))
       \<and> (assignedUser t \<noteq> [] \<and> assignedUser t \<noteq> owner \<longrightarrow>
            i \<notin> set (pendingOf st' (assignedUser t)))
       \<and> (map_of (users st) [] = None \<longrightarrow>
            (i \<in> set (pendingOf st' owner)
               \<longleftrightarrow> owner \<noteq> [] \<and> \<not> boolOf (field b ''completed'')))"
    by (cases "owner = []") auto
  show ?thesis by (rule exI [of _ owner], rule conjI [OF o body])
qed

lemma updateTask_reassign:
  "updateTask objectIdHex exampleDate idT (taskBody idB) annHasShip = (Ok (Some shipOfBob), bobHasShip)"
  by (simp add: eval_defs)

text \<open>C4, at the reassignment of Ann's pending task to Bob.\<close>

theorem updateTask_reconciles_witness:
  "updateTask objectIdHex exampleDate idT (taskBody idB) annHasShip = (Ok (Some shipOfBob), bobHasShip)
   \<and> map_of (tasks annHasShip) idT = Some shipOfAnn
   \<and> assignedUser shipOfAnn = idA \<and> strOf (field (taskBody idB) ''assignedUser'') = Inr idB
   \<and> idT \<in> set (pendingOf annHasShip idA)
   \<and> idT \<in> set (pendingOf bobHasShip idB) \<and> idT \<notin> set (pendingOf bobHasShip idA)"
proof -
  have t: "map_of (tasks annHasShip) idT = Some shipOfAnn" by (simp add: annHasShip_def)
  from updateTask_reconciles [OF updateTask_reassign t] updateTask_reassign t
  show ?thesis by (simp add: eval_defs)
qed

text \<open>
  C3 (as the code has it).  A task update whose \<^verbatim>\<open>assignedUser\<close> has a non-empty string
  form that is the identifier of no user never succeeds and leaves the whole store as it
  was.  When the name and the deadline are valid and the task exists, the answer is
  InvalidArgument if the \<^verbatim>\<open>description\<close> has a string form and the identifier is well
  formed; it is Internal if the \<^verbatim>\<open>description\<close> has no string form, or if the store
  cannot cast the identifier.
\<close>

theorem updateTask_unknown_assignee:
  assumes "strOf (field b ''assignedUser'') = Inr a" and "a \<noteq> []"
    and "map_of (users st) a = None"
  shows "snd (updateTask isId dateOf i b st) = st
       \<and> \<not> succeeded (fst (updateTask isId dateOf i b st))
       \<and> (trimmed (field b ''name'') = Inr nm \<and> nm \<noteq> []
            \<and> deadlineOf dateOf (field b ''deadline'') = Inr (Some dl)
            \<and> findById isId (tasks st) i = Inr (Some t) \<longrightarrow>
          fst (updateTask isId dateOf i b st) =
            (case strOf (field b ''description'') of
               Inl e \<Rightarrow> ServerError
             | Inr descr \<Rightarrow>
                 if isId a then BadRequest ''Assigned user does not exist'' else ServerError))"
  using assms
  by (auto simp: updateTask_def assignee_def findById_def Let_def
      split: sum.splits option.splits if_splits)

text \<open>C3, at a well-formed identifier that no user has.\<close>

theorem updateTask_unknown_assignee_witness:
  "strOf (field (taskBody idN) ''assignedUser'') = Inr idN \<and> idN \<noteq> []
   \<and> map_of (users shipUnowned) idN = None \<and> objectIdHex idN
   \<and> strOf (field (taskBody idN) ''description'') = Inr []
   \<and> updateTask objectIdHex exampleDate idT (taskBody idN) shipUnowned
       = (BadRequest ''Assigned user does not exist'', shipUnowned)"
  using updateTask_unknown_assignee
    [of "taskBody idN" idN shipUnowned objectIdHex exampleDate idT "''Ship release''"
        1893456000000 ship]
  by (simp add: eval_defs prod_eq_iff)

text \<open>A \<^verbatim>\<open>description\<close> with a key \<^verbatim>\<open>toString\<close> of its own: \<^verbatim>\<open>String\<close> throws before the user
  is looked up.\<close>

lemma updateTask_description_throws:
  "strOf (field (oddBody idN) ''description'') = Inl TypeError
   \<and> updateTask objectIdHex exampleDate idT (oddBody idN) shipUnowned = (ServerError, shipUnowned)"
  by (simp add: eval_defs)

text \<open>
  C3 (as the spec has it) fails: the \<^verbatim>\<open>assignedUser\<close> \<^verbatim>\<open>xyz\<close> references no user, and the
  update is answered Internal, not InvalidArgument.
\<close>

theorem updateTask_unknown_assignee_counterexample:
  "strOf (field (taskBody ''xyz'') ''assignedUser'') = Inr ''xyz''
   \<and> map_of (users shipUnowned) ''xyz'' = None
   \<and> updateTask objectIdHex exampleDate idT (taskBody ''xyz'') shipUnowned
       = (ServerError, shipUnowned)
   \<and> \<not> invalidArgument (fst (updateTask objectIdHex exampleDate idT (taskBody ''xyz'') shipUnowned))"
  by (simp add: eval_defs)

section \<open>Creating a task\<close>

lemma createTask_Created_cases:
  assumes "createTask isId dateOf now newId b st = (Created p, st')"
  obtains nm dl descr owner ownerName ts where
    "strOf (field b ''assignedUser'') = Inr owner"
    "assignee isId (users st) owner = Inr (Some ownerName)"
    "insertDoc (tasks st) newId
             \<lparr>task.name = trim nm, description = descr,
              deadline = dl, completed = boolOf (field b ''completed''),
              assignedUser = owner,
              assignedUserName = trim ownerName, dateCreated = now\<rparr> = Inr ts"
    "inOrder
       [onlyIf (owner \<noteq> [])
          (if \<not> boolOf (field b ''completed'')
           then addPendingToUser isId owner newId
           else removePendingFromUser isId owner newId)]
       (st\<lparr>tasks := ts\<rparr>) = (None, st')"
    "p = map_of (tasks st') newId"
  using assms
  by (auto simp: createTask_def Let_def simp del: inOrder.simps
      split: sum.splits option.splits if_splits prod.splits)

text \<open>
  C6.  After a successful task creation with a non-empty \<^verbatim>\<open>assignedUser\<close> \<open>u\<close>, the user
  \<open>u\<close> exists; if the task is completed its identifier is not in \<open>u\<close>'s pending set; if
  not, the identifier is in the set, as many times as before when it was there already and
  once otherwise: exactly once, when the array held it at most once before.
\<close>

theorem createTask_pending:
  assumes "createTask isId dateOf now newId b st = (Created p, st')"
    and "strOf (field b ''assignedUser'') = Inr u" and "u \<noteq> []"
  shows "map_of (users st) u \<noteq> None \<and> map_of (users st') u \<noteq> None
       \<and> (if boolOf (field b ''completed'') then newId \<notin> set (pendingOf st' u)
          else newId \<in> set (pendingOf st' u)
             \<and> count_list (pendingOf st' u) newId = max 1 (count_list (pendingOf st u) newId)
             \<and> (count_list (pendingOf st u) newId \<le> 1 \<longrightarrow>
                  count_list (pendingOf st' u) newId = 1))"
proof -
  from assms(1) obtain owner ownerName ts where
    o: "strOf (field b ''assignedUser'') = Inr owner" and
    own: "assignee isId (users st) owner = Inr (Some ownerName)" and
    run: "inOrder
       [onlyIf (owner \<noteq> [])
          (if \<not> boolOf (field b ''completed'')
           then addPendingToUser isId owner newId
           else removePendingFromUser isId owner newId)]
       (st\<lparr>tasks := ts\<rparr>) = (None, st')"
    by (rule createTask_Created_cases)
  from o assms(2) have [simp]: "owner = u" by simp
  from assignee_Some [OF own] assms(3) have ex: "map_of (users st) u \<noteq> None" by simp
  have pend0: "pendingOf (st\<lparr>tasks := ts\<rparr>) u = pendingOf st u"
    by (simp add: pendingOf_def)
  show ?thesis
  proof (cases "boolOf (field b ''completed'')")
    case True
    with run assms(3) have "removePendingFromUser isId u newId (st\<lparr>tasks := ts\<rparr>) = Inr st'"
      by (auto simp: onlyIf_def split: sum.splits)
    from removePending_effect(2,3) [OF this, of u] ex True assms(3) show ?thesis by simp
  next
    case False
    with run assms(3) have "addPendingToUser isId u newId (st\<lparr>tasks := ts\<rparr>) = Inr st'"
      by (auto simp: onlyIf_def split: sum.splits)
    from addPending_effect(2,3) [OF this, of u] ex False assms(3) show ?thesis
      by (simp add: pend0 count_addToSet)
  qed
qed

text \<open>C6, at the creation of a pending task for Ann.\<close>

theorem createTask_pending_witness:
  "createTask objectIdHex exampleDate 5 idN (taskBody idA) annAlone
     = (Created (Some (shipOfAnn\<lparr>dateCreated := 5\<rparr>)),
        \<lparr>tasks = [(idN, shipOfAnn\<lparr>dateCreated := 5\<rparr>)],
         users = [(idA, ann\<lparr>pendingTasks := [idN]\<rparr>)]\<rparr>)
   \<and> strOf (field (taskBody idA) ''assignedUser'') = Inr idA \<and> idA \<noteq> []
   \<and> \<not> boolOf (field (taskBody idA) ''completed'')
   \<and> count_list (pendingOf annAlone idA) idN \<le> 1
   \<and> count_list
        (pendingOf \<lparr>tasks = [(idN, shipOfAnn\<lparr>dateCreated := 5\<rparr>)],
                    users = [(idA, ann\<lparr>pendingTasks := [idN]\<rparr>)]\<rparr> idA) idN = 1"
  using createTask_pending
    [of objectIdHex exampleDate 5 idN "taskBody idA" annAlone
        "Some (shipOfAnn\<lparr>dateCreated := 5\<rparr>)"
        "\<lparr>tasks = [(idN, shipOfAnn\<lparr>dateCreated := 5\<rparr>)],
          users = [(idA, ann\<lparr>pendingTasks := [idN]\<rparr>)]\<rparr>" idA]
  by (simp add: eval_defs)

section \<open>Listing\<close>

lemma sortedBy_mset:
  "sortedBy eng srt docs = Inr ordered \<Longrightarrow> mset ordered = mset docs"
  by (auto simp: sortedBy_def split: option.splits)

lemma skipped_drop:
  "skipped skip xs = Inr rest \<Longrightarrow> rest = drop (skipCount skip) xs"
  by (cases skip) (auto split: if_splits)

lemma runFind_result:
  assumes "runFind eng w srt sel skip limit docs = Inr ds"
  shows "\<exists>matches ordered shown.
           filterOf eng (orEmpty w) = Some matches
         \<and> sortedBy eng srt (filter matches docs) = Inr ordered
         \<and> mset ordered = mset (filter matches docs)
         \<and> shownAs eng sel = Inr shown
         \<and> ds = map shown (limited limit (drop (skipCount skip) ordered))"
proof -
  from assms obtain matches ordered shown rest where
    m: "filterOf eng (orEmpty w) = Some matches" and
    o: "sortedBy eng srt (filter matches docs) = Inr ordered" and
    v: "shownAs eng sel = Inr shown" and
    r: "skipped skip ordered = Inr rest" and
    d: "ds = map shown (limited limit rest)"
    by (auto simp: runFind_def split: option.splits sum.splits)
  from r have "rest = drop (skipCount skip) ordered" by (rule skipped_drop)
  with m o v d sortedBy_mset [OF o] show ?thesis by blast
qed

text \<open>
  C7 (as the code has it).  With no \<^verbatim>\<open>limit\<close> parameter and a false \<^verbatim>\<open>count\<close>, a successful
  task listing returns the matching tasks, in the order asked for, after the skipped ones
  and cut at 100, each whole or projected as asked for; a successful user listing returns
  all the matching users after the skipped ones, with no cut.  The matching documents in
  the order asked for are a rearrangement of the stored documents that satisfy the filter.
\<close>

theorem list_default_limit:
  assumes "qlimit q = NoNumber" and "\<not> toBool (qcount q)"
  shows "(\<forall>calls r. listTasks eng q st = (calls, Ok r) \<longrightarrow>
            (\<exists>ds matches ordered shown.
                 r = Docs ds \<and> length ds \<le> 100
               \<and> filterOf eng (orEmpty (parseJSONParam (qwhere q))) = Some matches
               \<and> sortedBy eng (parseJSONParam (qsort q)) (filter matches (tasks st)) = Inr ordered
               \<and> mset ordered = mset (filter matches (tasks st))
               \<and> shownAs eng (parseJSONParam (qselect q)) = Inr shown
               \<and> ds = map shown (take 100 (drop (skipCount (qskip q)) ordered))
               \<and> length ds = min 100 (length (filter matches (tasks st)) - skipCount (qskip q))))
       \<and> (\<forall>calls r. listUsers eng' q st = (calls, Ok r) \<longrightarrow>
            (\<exists>ds matches ordered shown.
                 r = Docs ds
               \<and> filterOf eng' (orEmpty (parseJSONParam (qwhere q))) = Some matches
               \<and> sortedBy eng' (parseJSONParam (qsort q)) (filter matches (users st)) = Inr ordered
               \<and> mset ordered = mset (filter matches (users st))
               \<and> shownAs eng' (parseJSONParam (qselect q)) = Inr shown
               \<and> ds = map shown (drop (skipCount (qskip q)) ordered)
               \<and> length ds = length (filter matches (users st)) - skipCount (qskip q)))"
proof (intro conjI allI impI)
  fix calls r
  assume "listTasks eng q st = (calls, Ok r)"
  with assms obtain ds where r: "r = Docs ds" and
    run: "runFind eng (parseJSONParam (qwhere q)) (parseJSONParam (qsort q))
            (parseJSONParam (qselect q)) (qskip q) (Num 100) (tasks st) = Inr ds"
    by (auto simp: listTasks_def Let_def split: if_splits sum.splits)
  from runFind_result [OF run] obtain matches ordered shown where
    m: "filterOf eng (orEmpty (parseJSONParam (qwhere q))) = Some matches" and
    o: "sortedBy eng (parseJSONParam (qsort q)) (filter matches (tasks st)) = Inr ordered" and
    p: "mset ordered = mset (filter matches (tasks st))" and
    v: "shownAs eng (parseJSONParam (qselect q)) = Inr shown" and
    d: "ds = map shown (take 100 (drop (skipCount (qskip q)) ordered))"
    by auto
  from p have "length ordered = length (filter matches (tasks st))" by (rule mset_eq_length)
  with d have "length ds = min 100 (length (filter matches (tasks st)) - skipCount (qskip q))"
    by simp
  moreover from this have "length ds \<le> 100" by simp
  ultimately
  show "\<exists>ds matches ordered shown.
                 r = Docs ds \<and> length ds \<le> 100
               \<and> filterOf eng (orEmpty (parseJSONParam (qwhere q))) = Some matches
               \<and> sortedBy eng (parseJSONParam (qsort q)) (filter matches (tasks st)) = Inr ordered
               \<and> mset ordered = mset (filter matches (tasks st))
               \<and> shownAs eng (parseJSONParam (qselect q)) = Inr shown
               \<and> ds = map shown (take 100 (drop (skipCount (qskip q)) ordered))
               \<and> length ds = min 100 (length (filter matches (tasks st)) - skipCount (qskip q))"
    using r m o p v d by blast
next
  fix calls r
  assume "listUsers eng' q st = (calls, Ok r)"
  with assms obtain ds where r: "r = Docs ds" and
    run: "runFind eng' (parseJSONParam (qwhere q)) (parseJSONParam (qsort q))
            (parseJSONParam (qselect q)) (qskip q) NoNumber (users st) = Inr ds"
    by (auto simp: listUsers_def Let_def split: if_splits sum.splits)
  from runFind_result [OF run] obtain matches ordered shown where
    m: "filterOf eng' (orEmpty (parseJSONParam (qwhere q))) = Some matches" and
    o: "sortedBy eng' (parseJSONParam (qsort q)) (filter matches (users st)) = Inr ordered" and
    p: "mset ordered = mset (filter matches (users st))" and
    v: "shownAs eng' (parseJSONParam (qselect q)) = Inr shown" and
    d: "ds = map shown (drop (skipCount (qskip q)) ordered)"
    by auto
  from p have "length ordered = length (filter matches (users st))" by (rule mset_eq_length)
  with d have "length ds = length (filter matches (users st)) - skipCount (qskip q)"
    by simp
  then
  show "\<exists>ds matches ordered shown.
                 r = Docs ds
               \<and> filterOf eng' (orEmpty (parseJSONParam (qwhere q))) = Some matches
               \<and> sortedBy eng' (parseJSONParam (qsort q)) (filter matches (users st)) = Inr ordered
               \<and> mset ordered = mset (filter matches (users st))
               \<and> shownAs eng' (parseJSONParam (qselect q)) = Inr shown
               \<and> ds = map shown (drop (skipCount (qskip q)) ordered)
               \<and> length ds = length (filter matches (users st)) - skipCount (qskip q)"
    using r m o p v d by blast
qed

lemma crowd_length: "length (crowd n d) = n"
  by (simp add: crowd_def)

lemma filter_everyDoc: "filter everyDoc xs = xs"
  by (simp add: everyDoc_def)

lemma listTasks_crowded:
  "listTasks plainEngine plainQuery crowded = ([Find], Ok (Docs (map Whole (take 100 (tasks crowded)))))"
  by (simp add: listTasks_def plainQuery_def plainEngine_def runFind_def orEmpty_def filter_everyDoc
      sortedBy_def shownAs_def)

lemma listUsers_crowded:
  "listUsers plainEngine plainQuery crowded = ([Find], Ok (Docs (map Whole (users crowded))))"
  by (simp add: listUsers_def plainQuery_def plainEngine_def runFind_def orEmpty_def filter_everyDoc
      sortedBy_def shownAs_def)

text \<open>C7, at a store of 101 tasks and 101 users: 100 tasks are listed, and 101 users.\<close>

theorem list_default_limit_witness:
  "qlimit plainQuery = NoNumber \<and> \<not> toBool (qcount plainQuery)
   \<and> listTasks plainEngine plainQuery crowded
       = ([Find], Ok (Docs (map Whole (take 100 (tasks crowded)))))
   \<and> length (take 100 (tasks crowded)) = 100
   \<and> listUsers plainEngine plainQuery crowded = ([Find], Ok (Docs (map Whole (users crowded))))
   \<and> length (users crowded) = 101"
proof -
  have lim: "qlimit plainQuery = NoNumber" and cnt: "\<not> toBool (qcount plainQuery)"
    by (simp_all add: plainQuery_def)
  have len: "length (take 100 (tasks crowded)) = 100" "length (users crowded) = 101"
    by (simp_all add: crowded_def crowd_length)
  from list_default_limit [OF lim cnt, of plainEngine crowded plainEngine]
  show ?thesis
    using lim cnt len listTasks_crowded listUsers_crowded by blast
qed

text \<open>
  C7 (as the spec has it) fails: two users match, the request has no limit and skips one,
  and one user is returned, not all the matching ones.
\<close>

theorem list_default_limit_counterexample:
  "qlimit skipOne = NoNumber \<and> \<not> toBool (qcount skipOne)
   \<and> filterOf (plainEngine :: (string \<times> user, string) engine)
         (orEmpty (parseJSONParam (qwhere skipOne))) = Some everyDoc
   \<and> filter everyDoc (users shipFreed) = [(idA, ann), (idB, bob)]
   \<and> listUsers plainEngine skipOne shipFreed = ([Find], Ok (Docs [Whole (idB, bob)]))"
  by (simp add: skipOne_def listUsers_def plainEngine_def runFind_def orEmpty_def everyDoc_def
      shipFreed_def sortedBy_def shownAs_def)

lemma list_unparseable_answer:
  assumes "qwhere q = Unparseable
         \<or> qwhere q \<noteq> Parsed JNull
           \<and> (qsort q = Unparseable \<or> qsort q \<noteq> Parsed JNull \<and> qselect q = Unparseable)"
  shows "invalidArgument (snd (listTasks eng q st)) \<and> invalidArgument (snd (listUsers eng' q st))"
  using assms
  by (cases "qwhere q"; cases "qsort q"; cases "qselect q")
     (auto simp: listTasks_def listUsers_def Let_def)

lemma list_unparseable_calls:
  assumes "qwhere q = Unparseable \<or> qsort q = Unparseable \<or> qselect q = Unparseable"
  shows "fst (listTasks eng q st) = [] \<and> fst (listUsers eng' q st) = []"
  using assms by (auto simp: listTasks_def listUsers_def Let_def)

text \<open>
  C8 does not hold of the code.  When \<^verbatim>\<open>where\<close> is the text \<^verbatim>\<open>null\<close> and \<^verbatim>\<open>sort\<close> is not
  parseable, both list handlers return at the test of \<^verbatim>\<open>where\<close> against \<^verbatim>\<open>null\<close>: no store
  call is made, and no answer is sent at all, so the request does not fail with
  InvalidArgument.
\<close>

theorem list_null_before_unparseable:
  "qsort nullThenBroken = Unparseable
   \<and> listTasks plainEngine nullThenBroken emptyStore = ([], NoResponse)
   \<and> listUsers plainEngine nullThenBroken emptyStore = ([], NoResponse)
   \<and> \<not> invalidArgument (snd (listTasks plainEngine nullThenBroken emptyStore))
   \<and> \<not> invalidArgument (snd (listUsers plainEngine nullThenBroken emptyStore))"
  by (simp add: nullThenBroken_def listTasks_def listUsers_def)

section \<open>Updating a user\<close>

lemma saveOwner_effect:
  assumes "saveOwner k owner ownerName st = Inr st'"
  shows "users st' = users st"
    and "tasks st' = AList.map_entry k
            (\<lambda>d. d\<lparr>assignedUser := owner, assignedUserName := trim ownerName\<rparr>) (tasks st)"
  using assms by (auto simp: saveOwner_def)

lemma claimTask_users_kept:
  assumes "claimTask isId uid uname kt s = (e, s')"
  shows "(map_of (users s') v = None) = (map_of (users s) v = None)"
proof -
  obtain k t where kt: "kt = (k, t)" by (cases kt)
  let ?P = "\<lambda>x. (map_of (users x) v = None) = (map_of (users s) v = None)"
  have "?P s'"
  proof (rule inOrder_preserves [where P = ?P and st = s])
    show "inOrder
          [onlyIf (assignedUser t \<noteq> [] \<and> assignedUser t \<noteq> uid)
             (removePendingFromUser isId (assignedUser t) k),
           saveOwner k uid uname,
           (if \<not> completed t then addPendingToUser isId uid k
            else removePendingFromUser isId uid k)] s = (e, s')"
      using assms kt by (simp add: claimTask_def)
  next
    show "?P s" by simp
  next
    fix f x x'
    assume "f \<in> set [onlyIf (assignedUser t \<noteq> [] \<and> assignedUser t \<noteq> uid)
             (removePendingFromUser isId (assignedUser t) k),
           saveOwner k uid uname,
           (if \<not> completed t then addPendingToUser isId uid k
            else removePendingFromUser isId uid k)]" "f x = Inr x'" "?P x"
    then show "?P x'"
      by (auto simp: onlyIf_def removePending_effect(2) addPending_effect(2) saveOwner_effect(1)
          split: if_splits)
  qed
  then show ?thesis .
qed

lemma unassignTask_effect:
  assumes "unassignTask isId uid (k, t) s = (e, s')"
  shows "(map_of (users s') v = None) = (map_of (users s) v = None)"
    and "tasks s' = AList.map_entry k
            (\<lambda>d. d\<lparr>assignedUser := [], assignedUserName := ''unassigned''\<rparr>) (tasks s)"
  using assms
  by (auto simp: unassignTask_def saveOwner_def trim_def isSpace_def removePending_effect
      split: sum.splits)

lemma forFound_users_kept:
  assumes "forFound isId ids f st = (e, st')"
    and "\<And>kt s e s'. f kt s = (e, s') \<Longrightarrow> (map_of (users s') v = None) = (map_of (users s) v = None)"
  shows "(map_of (users st') v = None) = (map_of (users st) v = None)"
proof (cases "ids = []")
  case True
  with assms(1) show ?thesis by (simp add: forFound_def)
next
  case False
  show ?thesis
  proof (cases "findIn isId (tasks st) ids")
    case (Inl x)
    with False assms(1) show ?thesis by (simp add: forFound_def)
  next
    case (Inr found)
    with False assms(1) have run: "promiseAll f found st = (e, st')" by (simp add: forFound_def)
    show ?thesis
      by (rule promiseAll_preserves
            [where P = "\<lambda>x. (map_of (users x) v = None) = (map_of (users st) v = None)",
             OF _ _ run]) (simp_all add: assms(2))
  qed
qed

lemma updateUser_Ok_cases:
  assumes "updateUser isId i b st = (Ok p, st')"
  obtains nm em u np st1 st2 where
    "trimmed (field b ''name'') = Inr nm"
    "trimmed (field b ''email'') = Inr em"
    "map_of (users st) i = Some u"
    "stringsOf (field b ''pendingTasks'') = Inr np"
    "forFound isId (filter (\<lambda>x. x \<notin> set np) (pendingTasks u))
       (unassignTask isId i) st = (None, st1)"
    "forFound isId (filter (\<lambda>x. x \<notin> set (pendingTasks u)) np)
       (claimTask isId i nm) st1 = (None, st2)"
    "st' = st2\<lparr>users := AList.map_entry i
                   (\<lambda>x. x\<lparr>user.name := nm, email := toLowerCase em,
                          pendingTasks := np\<rparr>) (users st2)\<rparr>"
    "p = map_of (users st') i"
  using assms
  by (auto simp: updateUser_def findById_def Let_def userCatch_def
      split: sum.splits option.splits if_splits prod.splits)

lemma updateUser_stored:
  assumes "updateUser isId i b st = (Ok p, st')"
  shows "\<exists>nm em np. trimmed (field b ''name'') = Inr nm \<and> trimmed (field b ''email'') = Inr em
           \<and> stringsOf (field b ''pendingTasks'') = Inr np
           \<and> p = Some \<lparr>user.name = nm, email = toLowerCase em, pendingTasks = np\<rparr>
           \<and> map_of (users st') i = p"
proof -
  from assms obtain nm em u np st1 st2 where
    nm: "trimmed (field b ''name'') = Inr nm" and
    em: "trimmed (field b ''email'') = Inr em" and
    u: "map_of (users st) i = Some u" and
    np: "stringsOf (field b ''pendingTasks'') = Inr np" and
    rem: "forFound isId (filter (\<lambda>x. x \<notin> set np) (pendingTasks u))
       (unassignTask isId i) st = (None, st1)" and
    add: "forFound isId (filter (\<lambda>x. x \<notin> set (pendingTasks u)) np)
       (claimTask isId i nm) st1 = (None, st2)" and
    st': "st' = st2\<lparr>users := AList.map_entry i
                   (\<lambda>x. x\<lparr>user.name := nm, email := toLowerCase em,
                          pendingTasks := np\<rparr>) (users st2)\<rparr>" and
    p: "p = map_of (users st') i"
    by (rule updateUser_Ok_cases)
  have "(map_of (users st1) i = None) = (map_of (users st) i = None)"
    using rem by (rule forFound_users_kept) (auto dest: unassignTask_effect(1))
  moreover have "(map_of (users st2) i = None) = (map_of (users st1) i = None)"
    using add by (rule forFound_users_kept) (rule claimTask_users_kept)
  ultimately obtain x where "map_of (users st2) i = Some x" using u by auto
  then have "map_of (users st') i = Some \<lparr>user.name = nm, email = toLowerCase em,
                       pendingTasks = np\<rparr>"
    by (simp add: st' map_of_map_entry)
  with nm em np p show ?thesis by simp
qed

text \<open>
  C5.  After a successful user update the stored user, which is also the one returned, has
  the trimmed name, the trimmed and lower-cased email, and as pending set the list of the
  request, element for element (the empty list when the request has no array there).
\<close>

theorem updateUser_persists_request:
  assumes "updateUser isId i b st = (Ok p, st')"
  shows "\<exists>nm em np. trimmed (field b ''name'') = Inr nm \<and> trimmed (field b ''email'') = Inr em
           \<and> stringsOf (field b ''pendingTasks'') = Inr np
           \<and> p = Some \<lparr>user.name = nm, email = toLowerCase em, pendingTasks = np\<rparr>
           \<and> map_of (users st') i = p"
  using assms by (rule updateUser_stored)

lemma updateUser_bob_claims:
  "updateUser objectIdHex idB (userBody '' Bob '' ''Bob@X.org'' [idT]) annHasShip
     = (Ok (Some (bob\<lparr>pendingTasks := [idT]\<rparr>)), bobHasShip)"
  by (simp add: eval_defs)

text \<open>C5, at Bob's update claiming Ann's task.\<close>

theorem updateUser_persists_request_witness:
  "updateUser objectIdHex idB (userBody '' Bob '' ''Bob@X.org'' [idT]) annHasShip
     = (Ok (Some (bob\<lparr>pendingTasks := [idT]\<rparr>)), bobHasShip)
   \<and> trimmed (field (userBody '' Bob '' ''Bob@X.org'' [idT]) ''name'') = Inr ''Bob''
   \<and> stringsOf (field (userBody '' Bob '' ''Bob@X.org'' [idT]) ''pendingTasks'') = Inr [idT]
   \<and> map_of (users bobHasShip) idB
       = Some \<lparr>user.name = ''Bob'', email = ''bob@x.org'', pendingTasks = [idT]\<rparr>"
  using updateUser_persists_request [OF updateUser_bob_claims] updateUser_bob_claims
  by (simp add: eval_defs)

lemma promiseAll_unassign_tasks:
  assumes "promiseAll (unassignTask isId uid) ts s = (e, s')"
  shows "map_of (tasks s') k =
           (if k \<in> fst ` set ts
            then map_option (\<lambda>d. d\<lparr>assignedUser := [], assignedUserName := ''unassigned''\<rparr>)
                   (map_of (tasks s) k)
            else map_of (tasks s) k)"
  using assms
proof (induction ts arbitrary: s e)
  case Nil
  then show ?case by simp
next
  case (Cons kt ts)
  obtain k1 t1 where kt: "kt = (k1, t1)" by (cases kt)
  obtain e1 s1 where 1: "unassignTask isId uid (k1, t1) s = (e1, s1)"
    by (cases "unassignTask isId uid (k1, t1) s")
  obtain e2 s2 where 2: "promiseAll (unassignTask isId uid) ts s1 = (e2, s2)"
    by (cases "promiseAll (unassignTask isId uid) ts s1")
  from 1 2 kt Cons.prems have "s2 = s'" by simp
  with 2 have run: "promiseAll (unassignTask isId uid) ts s1 = (e2, s')" by simp
  note ih = Cons.IH [OF run]
  have t1: "\<And>k. map_of (tasks s1) k =
      (if k = k1 then map_option (\<lambda>d. d\<lparr>assignedUser := [], assignedUserName := ''unassigned''\<rparr>)
                         (map_of (tasks s) k)
       else map_of (tasks s) k)"
    by (auto simp: unassignTask_effect(2) [OF 1] map_of_map_entry split: option.splits)
  show ?case
    by (simp add: ih t1 kt option.map_comp comp_def)
qed

lemma stringsOf_not_array:
  "(\<And>xs. v \<noteq> Some (JArr xs)) \<Longrightarrow> stringsOf v = Inr []"
  by (cases v rule: stringsOf.cases) auto

text \<open>
  C9.  After a successful user update whose \<^verbatim>\<open>pendingTasks\<close> is absent or is not an array,
  every task that was in the user's pending set has an empty \<^verbatim>\<open>assignedUser\<close> and the
  \<^verbatim>\<open>assignedUserName\<close> \<^verbatim>\<open>unassigned\<close>, its other fields as before, and the user is stored with
  an empty pending set.
\<close>

theorem updateUser_without_pending:
  assumes "updateUser isId i b st = (Ok p, st')"
    and "\<forall>xs. field b ''pendingTasks'' \<noteq> Some (JArr xs)"
    and "map_of (users st) i = Some u"
    and "k \<in> set (pendingTasks u)"
    and "map_of (tasks st) k = Some t"
  shows "map_of (tasks st') k = Some (t\<lparr>assignedUser := [], assignedUserName := ''unassigned''\<rparr>)
       \<and> (\<exists>x. map_of (users st') i = Some x \<and> pendingTasks x = [])"
proof -
  from assms(2) have none: "stringsOf (field b ''pendingTasks'') = Inr []"
    by (intro stringsOf_not_array) simp
  from assms(1) obtain nm u0 np st1 st2 where
    u0: "map_of (users st) i = Some u0" and
    np: "stringsOf (field b ''pendingTasks'') = Inr np" and
    rem: "forFound isId (filter (\<lambda>x. x \<notin> set np) (pendingTasks u0))
       (unassignTask isId i) st = (None, st1)" and
    add: "forFound isId (filter (\<lambda>x. x \<notin> set (pendingTasks u0)) np)
       (claimTask isId i nm) st1 = (None, st2)" and
    st': "tasks st' = tasks st2"
    by (rule updateUser_Ok_cases) simp
  from u0 assms(3) have [simp]: "u0 = u" by simp
  from np none have [simp]: "np = []" by simp
  from add have [simp]: "st2 = st1" by (simp add: forFound_def)
  from assms(4) have ne: "pendingTasks u \<noteq> []" by auto
  from rem ne obtain found where
    found: "findIn isId (tasks st) (pendingTasks u) = Inr found" and
    run: "promiseAll (unassignTask isId i) found st = (None, st1)"
    by (auto simp: forFound_def split: sum.splits)
  from found have f: "found = filter (\<lambda>kd. fst kd \<in> set (pendingTasks u)) (tasks st)"
    by (auto simp: findIn_def split: if_splits)
  from assms(5) have "(k, t) \<in> set (tasks st)" by (rule map_of_SomeD)
  with assms(4) f have "k \<in> fst ` set found" by force
  with promiseAll_unassign_tasks [OF run, of k] assms(5) st'
  have "map_of (tasks st') k = Some (t\<lparr>assignedUser := [], assignedUserName := ''unassigned''\<rparr>)"
    by simp
  moreover from updateUser_stored [OF assms(1)] none
  have "\<exists>x. map_of (users st') i = Some x \<and> pendingTasks x = []" by auto
  ultimately show ?thesis by simp
qed

lemma updateUser_ann_drops:
  "updateUser objectIdHex idA (nameEmail ''Ann'' ''ann@x.org'') annHasShip
     = (Ok (Some ann), shipFreed)"
  by (simp add: eval_defs)

text \<open>C9, at Ann's update without a pending list while she holds one task.\<close>

theorem updateUser_without_pending_witness:
  "updateUser objectIdHex idA (nameEmail ''Ann'' ''ann@x.org'') annHasShip
     = (Ok (Some ann), shipFreed)
   \<and> field (nameEmail ''Ann'' ''ann@x.org'') ''pendingTasks'' = None
   \<and> map_of (users annHasShip) idA = Some (ann\<lparr>pendingTasks := [idT]\<rparr>)
   \<and> map_of (tasks annHasShip) idT = Some shipOfAnn
   \<and> map_of (tasks shipFreed) idT
       = Some (shipOfAnn\<lparr>assignedUser := [], assignedUserName := ''unassigned''\<rparr>)
   \<and> pendingOf shipFreed idA = []"
  using updateUser_without_pending
    [OF updateUser_ann_drops, of "ann\<lparr>pendingTasks := [idT]\<rparr>" idT shipOfAnn]
  by (simp add: eval_defs)

section \<open>Invariant I2 and the user update\<close>

text \<open>
  C1 does not hold of the code.  In a store where I2 holds, with one completed, unassigned
  task and one user, the user's update naming that task in \<^verbatim>\<open>pendingTasks\<close> succeeds; the
  task is then assigned to the user and still completed, and its identifier is in the
  user's stored pending set: I2 fails after the update.
\<close>

theorem updateUser_breaks_I2:
  "I2 doneUnowned
   \<and> updateUser objectIdHex idA (userBody ''Ann'' ''ann@x.org'' [idT]) doneUnowned
       = (Ok (Some (ann\<lparr>pendingTasks := [idT]\<rparr>)), doneOfAnn)
   \<and> map_of (tasks doneOfAnn) idT
       = Some (shipDone\<lparr>assignedUser := idA, assignedUserName := ''Ann''\<rparr>)
   \<and> completed shipDone
   \<and> idT \<in> set (pendingOf doneOfAnn idA)
   \<and> \<not> I2 doneOfAnn"
  by (simp add: eval_defs)

section \<open>Creating a user\<close>

lemma removePending_ok:
  "a = [] \<or> isId a \<Longrightarrow> \<exists>s'. removePendingFromUser isId a k s = Inr s'"
  by (auto simp: removePendingFromUser_def findByIdAndUpdate_def)

lemma addPending_ok:
  "a = [] \<or> isId a \<Longrightarrow> \<exists>s'. addPendingToUser isId a k s = Inr s'"
  by (auto simp: addPendingToUser_def findByIdAndUpdate_def)

lemma claimTask_ok:
  assumes uid: "isId uid" and own: "assignedUser t = [] \<or> isId (assignedUser t)"
  shows "\<exists>s'. claimTask isId uid uname (k, t) s = (None, s')
            \<and> set (pendingOf s' uid) \<subseteq> insert k (set (pendingOf s uid))"
proof -
  let ?c = "assignedUser t \<noteq> [] \<and> assignedUser t \<noteq> uid"
  obtain s1 where 1: "onlyIf ?c (removePendingFromUser isId (assignedUser t) k) s = Inr s1"
    and p1: "pendingOf s1 uid = pendingOf s uid"
  proof (cases ?c)
    case True
    from removePending_ok [of "assignedUser t" isId k s] own obtain x
      where x: "removePendingFromUser isId (assignedUser t) k s = Inr x" by blast
    from removePending_effect(3) [OF x, of uid] True have "pendingOf x uid = pendingOf s uid"
      by auto
    with x True that show ?thesis by (simp add: onlyIf_def)
  next
    case False
    with that [of s] show ?thesis by (simp add: onlyIf_def)
  qed
  obtain s2 where 2: "saveOwner k uid uname s1 = Inr s2" and p2: "pendingOf s2 uid = pendingOf s1 uid"
    by (simp add: saveOwner_def pendingOf_def)
  obtain s3 where 3: "(if \<not> completed t then addPendingToUser isId uid k
            else removePendingFromUser isId uid k) s2 = Inr s3"
    and p3: "set (pendingOf s3 uid) \<subseteq> insert k (set (pendingOf s2 uid))"
  proof (cases "completed t")
    case True
    from removePending_ok [of uid isId k s2] uid obtain x
      where x: "removePendingFromUser isId uid k s2 = Inr x" by blast
    from removePending_effect(3) [OF x, of uid]
    have "set (pendingOf x uid) \<subseteq> insert k (set (pendingOf s2 uid))" by (auto split: if_splits)
    with x True that show ?thesis by simp
  next
    case False
    from addPending_ok [of uid isId k s2] uid obtain x
      where x: "addPendingToUser isId uid k s2 = Inr x" by blast
    from addPending_effect(3) [OF x, of uid]
    have "set (pendingOf x uid) \<subseteq> insert k (set (pendingOf s2 uid))" by (auto split: if_splits)
    with x False that show ?thesis by simp
  qed
  have "claimTask isId uid uname (k, t) s = (None, s3)"
    using 1 2 3 by (simp add: claimTask_def)
  with p1 p2 p3 show ?thesis by auto
qed

lemma promiseAll_claim_ok:
  assumes "isId uid"
    and "list_all (\<lambda>kt. assignedUser (snd kt) = [] \<or> isId (assignedUser (snd kt))) ts"
  shows "\<exists>s'. promiseAll (claimTask isId uid uname) ts s = (None, s')
            \<and> set (pendingOf s' uid) \<subseteq> set (pendingOf s uid) \<union> fst ` set ts"
  using assms(2)
proof (induction ts arbitrary: s)
  case Nil
  then show ?case by simp
next
  case (Cons kt ts)
  obtain k t where kt: "kt = (k, t)" by (cases kt)
  from Cons.prems kt have own: "assignedUser t = [] \<or> isId (assignedUser t)" by simp
  from claimTask_ok [OF assms(1) own] obtain s1 where
    1: "claimTask isId uid uname (k, t) s = (None, s1)" and
    p1: "set (pendingOf s1 uid) \<subseteq> insert k (set (pendingOf s uid))" by blast
  from Cons.prems have "list_all (\<lambda>kt. assignedUser (snd kt) = [] \<or> isId (assignedUser (snd kt))) ts"
    by simp
  from Cons.IH [OF this] obtain s2 where
    2: "promiseAll (claimTask isId uid uname) ts s1 = (None, s2)" and
    p2: "set (pendingOf s2 uid) \<subseteq> set (pendingOf s1 uid) \<union> fst ` set ts" by blast
  from 1 2 kt have "promiseAll (claimTask isId uid uname) (kt # ts) s = (None, s2)" by simp
  moreover from p1 p2 kt have "set (pendingOf s2 uid) \<subseteq> set (pendingOf s uid) \<union> fst ` set (kt # ts)"
    by auto
  ultimately show ?case by blast
qed

lemma forFound_claim_ok:
  assumes "isId uid" and "list_all isId ids"
    and "list_all (\<lambda>kt. assignedUser (snd kt) = [] \<or> isId (assignedUser (snd kt))) (tasks s)"
  shows "\<exists>s'. forFound isId ids (claimTask isId uid uname) s = (None, s')
            \<and> set (pendingOf s' uid) \<subseteq> set (pendingOf s uid) \<union> (set ids \<inter> fst ` set (tasks s))
            \<and> (\<forall>v. (map_of (users s') v = None) = (map_of (users s) v = None))"
proof -
  let ?found = "filter (\<lambda>kd. fst kd \<in> set ids) (tasks s)"
  from assms(3) have "list_all (\<lambda>kt. assignedUser (snd kt) = [] \<or> isId (assignedUser (snd kt))) ?found"
    by (simp add: list_all_iff)
  from promiseAll_claim_ok [OF assms(1) this] obtain s' where
    run: "promiseAll (claimTask isId uid uname) ?found s = (None, s')" and
    p: "set (pendingOf s' uid) \<subseteq> set (pendingOf s uid) \<union> fst ` set ?found" by blast
  show ?thesis
  proof (cases "ids = []")
    case True
    then show ?thesis by (simp add: forFound_def)
  next
    case False
    with run assms(2) have ff: "forFound isId ids (claimTask isId uid uname) s = (None, s')"
      by (simp add: forFound_def findIn_def)
    have "\<forall>v. (map_of (users s') v = None) = (map_of (users s) v = None)"
      using forFound_users_kept [OF ff] claimTask_users_kept by blast
    moreover from p have "set (pendingOf s' uid) \<subseteq> set (pendingOf s uid) \<union> (set ids \<inter> fst ` set (tasks s))"
      by auto
    ultimately show ?thesis using ff by blast
  qed
qed

text \<open>
  C10 (as the code has it).  A user creation with a valid name and an email nobody has,
  whose \<^verbatim>\<open>pendingTasks\<close> strings are all well-formed identifiers, in a store whose task
  owners are empty or well formed, succeeds; the created user's pending set holds only
  requested identifiers, and none that references no task.
\<close>

theorem createUser_unknown_tasks:
  assumes "trimmed (field b ''name'') = Inr nm" and "nm \<noteq> []"
    and "trimmed (field b ''email'') = Inr em" and "toLowerCase em \<noteq> []"
    and "findOne (toLowerCase em) (users st) = None"
    and "newId \<notin> set (map fst (users st))" and "isId newId"
    and "stringsOf (field b ''pendingTasks'') = Inr ps" and "list_all isId ps"
    and "list_all (\<lambda>kt. assignedUser (snd kt) = [] \<or> isId (assignedUser (snd kt))) (tasks st)"
  shows "\<exists>u st'. createUser isId newId b st = (Created (Some u), st')
           \<and> map_of (users st') newId = Some u
           \<and> set (pendingTasks u) \<subseteq> set ps
           \<and> (\<forall>k. map_of (tasks st) k = None \<longrightarrow> k \<notin> set (pendingTasks u))"
proof -
  let ?new = "\<lparr>user.name = nm, email = toLowerCase em, pendingTasks = []\<rparr>"
  let ?s0 = "st\<lparr>users := users st @ [(newId, ?new)]\<rparr>"
  have ins: "insertDoc (users st) newId ?new = Inr (users st @ [(newId, ?new)])"
    using assms(6) by (simp add: insertDoc_def)
  have new0: "map_of (users ?s0) newId = Some ?new"
    using assms(6) by (simp add: map_of_eq_None_iff [THEN iffD2] map_add_def split: option.splits)
  then have p0: "pendingOf ?s0 newId = []" by (simp add: pendingOf_def)
  from assms(10) have own: "list_all (\<lambda>kt. assignedUser (snd kt) = [] \<or> isId (assignedUser (snd kt))) (tasks ?s0)"
    by simp
  from forFound_claim_ok [OF assms(7) assms(9) own, of nm] obtain s' where
    run: "forFound isId ps (claimTask isId newId nm) ?s0 = (None, s')" and
    p: "set (pendingOf s' newId) \<subseteq> set (pendingOf ?s0 newId)
          \<union> (set ps \<inter> fst ` set (tasks ?s0))" and
    d: "\<forall>v. (map_of (users s') v = None) = (map_of (users ?s0) v = None)" by blast
  from d new0 obtain u where u: "map_of (users s') newId = Some u" by fastforce
  have res: "createUser isId newId b st = (Created (Some u), s')"
    using assms(1-5) assms(8) ins run u by (simp add: createUser_def)
  have "pendingOf s' newId = pendingTasks u" using u by (simp add: pendingOf_def)
  with p p0 have sub: "set (pendingTasks u) \<subseteq> set ps \<inter> fst ` set (tasks st)"
    by simp
  have "k \<notin> set (pendingTasks u)" if "map_of (tasks st) k = None" for k
    using that sub by (auto simp: map_of_eq_None_iff)
  with res u sub show ?thesis by blast
qed

text \<open>C10, at Cy's creation asking for Ann's task and for an identifier of no task.\<close>

theorem createUser_unknown_tasks_witness:
  "trimmed (field (userBody ''Cy'' ''Cy@X.org'' [idT, idB]) ''name'') = Inr ''Cy''
   \<and> trimmed (field (userBody ''Cy'' ''Cy@X.org'' [idT, idB]) ''email'') = Inr ''Cy@X.org''
   \<and> findOne (toLowerCase ''Cy@X.org'') (users annHasShip) = None
   \<and> idN \<notin> set (map fst (users annHasShip)) \<and> objectIdHex idN
   \<and> stringsOf (field (userBody ''Cy'' ''Cy@X.org'' [idT, idB]) ''pendingTasks'') = Inr [idT, idB]
   \<and> list_all objectIdHex [idT, idB]
   \<and> map_of (tasks annHasShip) idB = None
   \<and> createUser objectIdHex idN (userBody ''Cy'' ''Cy@X.org'' [idT, idB]) annHasShip
       = (Created (Some (cy\<lparr>pendingTasks := [idT]\<rparr>)), cyHasShip)
   \<and> idB \<notin> set (pendingTasks (cy\<lparr>pendingTasks := [idT]\<rparr>))"
  using createUser_unknown_tasks
    [of "userBody ''Cy'' ''Cy@X.org'' [idT, idB]" "''Cy''" "''Cy@X.org''" annHasShip idN
        objectIdHex "[idT, idB]"]
  by (simp add: eval_defs)

text \<open>
  C10 (as the spec has it) fails: the string \<^verbatim>\<open>xyz\<close> references no task, and the creation
  asking for it is answered Internal, after the user has been stored.
\<close>

theorem createUser_unknown_tasks_counterexample:
  "stringsOf (field (userBody ''Cy'' ''cy@x.org'' [''xyz'']) ''pendingTasks'') = Inr [''xyz'']
   \<and> map_of (tasks annAlone) ''xyz'' = None
   \<and> createUser objectIdHex idN (userBody ''Cy'' ''cy@x.org'' [''xyz'']) annAlone
       = (ServerError, \<lparr>tasks = [], users = [(idA, ann), (idN, cy)]\<rparr>)
   \<and> \<not> succeeded (fst (createUser objectIdHex idN (userBody ''Cy'' ''cy@x.org'' [''xyz'']) annAlone))"
  by (simp add: eval_defs)

end
